theory Spec2Isabelle
  imports Complex_Main "HOL-Library.AList"
begin

section \<open>Python strings\<close>

text \<open>
  Device replies and file lines are Python \<open>str\<close> values, sequences of Unicode code
  points. They are modelled as \<open>string\<close>, and a \<open>char\<close> stands for the code point of the
  same number: the model covers the text whose code points are below 256. On these,
  \<open>isspace\<close>, \<open>isdigit\<close> and \<open>lower\<close> are what \<open>str.isspace\<close> (also the whitespace of
  \<open>strip\<close>, \<open>split\<close> and \<open>\s\<close>), the class \<open>\d\<close> and \<open>str.lower\<close> are in Python.
\<close>

definition isspace :: "char \<Rightarrow> bool" where
  \<comment> \<open>TAB, LF, VT, FF, CR, FS, GS, RS, US, the blank, NEL (133) and the no-break
      space (160)\<close>
  "isspace c =
     (let n = (of_char c :: nat)
      in (9 \<le> n \<and> n \<le> 13) \<or> (28 \<le> n \<and> n \<le> 32) \<or> n = 133 \<or> n = 160)"

definition isdigit :: "char \<Rightarrow> bool" where
  \<comment> \<open>the decimal digits; below 256 these are \<open>0\<close> to \<open>9\<close>\<close>
  "isdigit c = (let n = (of_char c :: nat) in 48 \<le> n \<and> n \<le> 57)"

definition lower_char :: "char \<Rightarrow> char" where
  \<comment> \<open>\<open>A\<close> to \<open>Z\<close> and the capital letters 192 to 222 (215, the multiplication sign,
      is no letter) have their small letter 32 above\<close>
  "lower_char c =
     (let n = (of_char c :: nat)
      in if (65 \<le> n \<and> n \<le> 90) \<or> (192 \<le> n \<and> n \<le> 222 \<and> n \<noteq> 215) then char_of (n + 32)
         else c)"

definition upper_char :: "char \<Rightarrow> string" where
  \<comment> \<open>\<open>a\<close> to \<open>z\<close> and the small letters 224 to 254 (247, the division sign, is no
      letter) have their capital 32 below; the capital of the sharp s (223) is \<open>SS\<close>.
      The capitals of the micro sign (181) and of y with diaeresis (255) are beyond 255:
      the model leaves these two characters as they are.\<close>
  "upper_char c =
     (let n = (of_char c :: nat)
      in if (97 \<le> n \<and> n \<le> 122) \<or> (224 \<le> n \<and> n \<le> 254 \<and> n \<noteq> 247) then [char_of (n - 32)]
         else if n = 223 then ''SS''
         else [c])"

definition lower :: "string \<Rightarrow> string" where
  "lower s = map lower_char s"

definition upper :: "string \<Rightarrow> string" where
  "upper s = concat (map upper_char s)"

fun startswith :: "string \<Rightarrow> string \<Rightarrow> bool" where
  \<comment> \<open>\<open>startswith s p\<close> is Python's \<open>s.startswith(p)\<close>.\<close>
  "startswith s [] = True"
| "startswith [] (p # ps) = False"
| "startswith (x # xs) (p # ps) = (x = p \<and> startswith xs ps)"

fun contains :: "string \<Rightarrow> string \<Rightarrow> bool" where
  \<comment> \<open>\<open>contains sub s\<close> is Python's \<open>sub in s\<close>.\<close>
  "contains sub [] = startswith [] sub"
| "contains sub (x # xs) = (startswith (x # xs) sub \<or> contains sub xs)"

definition strip :: "string \<Rightarrow> string" where
  \<comment> \<open>\<open>s.strip()\<close>: whitespace removed at both ends.\<close>
  "strip s = rev (dropWhile isspace (rev (dropWhile isspace s)))"

definition strip_chars :: "string \<Rightarrow> string \<Rightarrow> string" where
  \<comment> \<open>\<open>s.strip(chars)\<close>.\<close>
  "strip_chars cs s = rev (dropWhile (\<lambda>c. c \<in> set cs) (rev (dropWhile (\<lambda>c. c \<in> set cs) s)))"

fun split_on :: "char \<Rightarrow> string \<Rightarrow> string list" where
  \<comment> \<open>\<open>s.split(sep)\<close> for a one-character separator; never empty.\<close>
  "split_on sep [] = [[]]"
| "split_on sep (x # xs) =
     (if x = sep then [] # split_on sep xs
      else (case split_on sep xs of [] \<Rightarrow> [[x]] | w # ws \<Rightarrow> (x # w) # ws))"

fun split_ws :: "string \<Rightarrow> string list" where
  \<comment> \<open>\<open>s.split()\<close>: the maximal runs of non-whitespace characters.\<close>
  "split_ws [] = []"
| "split_ws (x # xs) =
     (if isspace x then split_ws xs
      else (case xs of
              [] \<Rightarrow> [[x]]
            | y # _ \<Rightarrow> if isspace y then [x] # split_ws xs
                       else (case split_ws xs of [] \<Rightarrow> [[x]] | w # ws \<Rightarrow> (x # w) # ws)))"

definition digit_val :: "char \<Rightarrow> nat" where
  "digit_val c = of_char c - 48"

definition int_of_digits :: "string \<Rightarrow> nat" where
  \<comment> \<open>\<open>int(s)\<close> for a string of decimal digits. Python refuses a string of more
      than 4300 digits; the model gives its value.\<close>
  "int_of_digits s = foldl (\<lambda>acc c. 10 * acc + digit_val c) 0 s"

definition digit_char :: "nat \<Rightarrow> char" where
  "digit_char d = char_of (48 + d)"

fun digits_fuel :: "nat \<Rightarrow> nat \<Rightarrow> string \<Rightarrow> string" where
  "digits_fuel 0 n acc = acc"
| "digits_fuel (Suc k) n acc =
     (if n < 10 then digit_char n # acc
      else digits_fuel k (n div 10) (digit_char (n mod 10) # acc))"

definition str_of_nat :: "nat \<Rightarrow> string" where
  \<comment> \<open>\<open>str(n)\<close>, as an f-string prints a non-negative integer. A number \<open>n\<close> has at
      most \<open>n + 1\<close> digits, so the fuel never runs out.\<close>
  "str_of_nat n = digits_fuel (Suc n) n []"

section \<open>Regular expressions\<close>

text \<open>
  The fragment of Python's \<open>re\<close> that the parsers use: character classes, literal text,
  greedy \<open>+\<close> and \<open>*\<close> on a class, a greedy optional part, concatenation and
  capturing groups (never nested, so groups are numbered in the order they close).
  \<open>rx_run\<close> lists every way the pattern can match at the start of the input, in the
  order the backtracking matcher tries them; the first one is the match Python reports.
\<close>

datatype cclass =
    CDigit                  \<comment> \<open>\<open>\d\<close>\<close>
  | CSpace                  \<comment> \<open>\<open>\s\<close>\<close>
  | CChar char              \<comment> \<open>a literal character\<close>
  | CNot cclass             \<comment> \<open>\<open>[^...]\<close>, \<open>\S\<close>\<close>
  | COr cclass cclass       \<comment> \<open>\<open>[...]\<close>\<close>

fun in_class :: "cclass \<Rightarrow> char \<Rightarrow> bool" where
  "in_class CDigit c = isdigit c"
| "in_class CSpace c = isspace c"
| "in_class (CChar d) c = (c = d)"
| "in_class (CNot k) c = (\<not> in_class k c)"
| "in_class (COr k l) c = (in_class k c \<or> in_class l c)"

datatype regex =
    Lit string              \<comment> \<open>literal text\<close>
  | Plus cclass             \<comment> \<open>\<open>c+\<close>\<close>
  | Star cclass             \<comment> \<open>\<open>c*\<close>\<close>
  | Opt regex               \<comment> \<open>\<open>(?:r)?\<close>\<close>
  | Cat regex regex         \<comment> \<open>\<open>r1 r2\<close>\<close>
  | Grp regex               \<comment> \<open>\<open>(r)\<close>\<close>

fun seq :: "regex list \<Rightarrow> regex" where
  \<comment> \<open>the concatenation of the listed parts, left to right\<close>
  "seq [] = Lit []"
| "seq [r] = r"
| "seq (r # rs) = Cat r (seq rs)"

type_synonym rx_state = "string \<times> string list"
  \<comment> \<open>the input still to read, and the groups captured so far\<close>

fun rx_run :: "regex \<Rightarrow> string \<Rightarrow> string list \<Rightarrow> rx_state list" where
  "rx_run (Lit l) s g = (if startswith s l then [(drop (length l) s, g)] else [])"
| "rx_run (Plus k) s g =
     map (\<lambda>n. (drop n s, g)) (rev [1 ..< Suc (length (takeWhile (in_class k) s))])"
| "rx_run (Star k) s g =
     map (\<lambda>n. (drop n s, g)) (rev [0 ..< Suc (length (takeWhile (in_class k) s))])"
| "rx_run (Opt r) s g = rx_run r s g @ [(s, g)]"
| "rx_run (Cat r1 r2) s g = concat (map (\<lambda>(s', g'). rx_run r2 s' g') (rx_run r1 s g))"
| "rx_run (Grp r) s g =
     map (\<lambda>(s', g'). (s', g' @ [take (length s - length s') s])) (rx_run r s g)"

definition re_match :: "regex \<Rightarrow> string \<Rightarrow> string list option" where
  \<comment> \<open>\<open>re.match\<close>: the groups of the first match at the start of the string.\<close>
  "re_match r s = (case rx_run r s [] of [] \<Rightarrow> None | (_, g) # _ \<Rightarrow> Some g)"

fun re_search :: "regex \<Rightarrow> string \<Rightarrow> string list option" where
  \<comment> \<open>\<open>re.search\<close>: the match at the leftmost position that has one.\<close>
  "re_search r [] = re_match r []"
| "re_search r (x # xs) =
     (case re_match r (x # xs) of Some g \<Rightarrow> Some g | None \<Rightarrow> re_search r xs)"


section \<open>The connection (\<open>modules/mikrotik_connection.py\<close>)\<close>

text \<open>
  The transport is outside the model. A device is the function that gives its reply to a
  command after the commands sent before; \<open>None\<close> is the absent reply
  (\<open>execute_command\<close> catches every transport error and returns \<open>None\<close>).
  The connection records every command it sends.
\<close>

datatype py_error = IndexError | ZeroDivisionError | ValueError

record conn =
  has_connection :: bool
  device :: "string list \<Rightarrow> string \<Rightarrow> string option"
  sent :: "string list"

definition is_connected :: "conn \<Rightarrow> bool" where
  "is_connected c = has_connection c"

definition execute_command :: "conn \<Rightarrow> string \<Rightarrow> string option \<times> conn" where
  "execute_command c command =
     (if has_connection c then (device c (sent c) command, c\<lparr>sent := sent c @ [command]\<rparr>)
      else (None, c))"

definition rejected :: "string option \<Rightarrow> bool" where
  \<comment> \<open>\<open>output and ("syntax error" in output.lower() or "failure" in output.lower())\<close>\<close>
  "rejected out =
     (case out of
        None \<Rightarrow> False
      | Some s \<Rightarrow> s \<noteq> [] \<and> (contains ''syntax error'' (lower s) \<or> contains ''failure'' (lower s)))"

section \<open>IPv6 addresses (\<open>modules/mikrotik_ipv6_config.py\<close>)\<close>

record address_entry =
  ae_id :: string
  ae_flags :: string
  ae_address :: string
  ae_interface :: string
  ae_advertise :: bool
  ae_comment :: "string option"

definition rx_entry_start :: regex where
  \<comment> \<open>\<open>^\s*\d+\<close>\<close>
  "rx_entry_start = seq [Star CSpace, Plus CDigit]"

definition host_part :: "string \<Rightarrow> string" where
  \<comment> \<open>\<open>s.split('/')[0]\<close>\<close>
  "host_part s = (case split_on CHR ''/'' s of [] \<Rightarrow> [] | w # _ \<Rightarrow> w)"

fun parse_addresses_loop ::
  "string list \<Rightarrow> address_entry list \<Rightarrow> address_entry option \<Rightarrow> py_error + address_entry list"
where
  \<comment> \<open>The loop of \<open>_parse_ipv6_addresses\<close>; \<open>cur\<close> is \<open>current_entry\<close>, \<open>None\<close> for the
      empty dict. After the last line the function returns \<open>addresses\<close> as it stands.\<close>
  "parse_addresses_loop [] addresses cur = Inr addresses"
| "parse_addresses_loop (raw # rest) addresses cur =
     (let line = strip raw in
      if line = [] \<or> contains ''Flags:'' line \<or> (contains ''#'' line \<and> contains ''ADDRESS'' line)
      then parse_addresses_loop rest addresses cur
      else if re_match rx_entry_start line \<noteq> None then
        (let addresses' = (case cur of None \<Rightarrow> addresses | Some e \<Rightarrow> addresses @ [e]) in
         case split_ws line of
           p0 # p1 # p2 # p3 # p4 # ps \<Rightarrow>
             parse_addresses_loop rest addresses'
               (Some \<lparr>ae_id = p0, ae_flags = p1, ae_address = p2, ae_interface = p3,
                      ae_advertise = (p4 = ''yes''),
                      ae_comment = (case ps of [] \<Rightarrow> None | p5 # _ \<Rightarrow> Some p5)\<rparr>)
         | [] \<Rightarrow> parse_addresses_loop rest addresses' None
         | [p0] \<Rightarrow> parse_addresses_loop rest addresses' None
         | _ \<Rightarrow> Inl IndexError)
      else parse_addresses_loop rest addresses cur)"

definition parse_ipv6_addresses :: "string \<Rightarrow> py_error + address_entry list" where
  "parse_ipv6_addresses output = parse_addresses_loop (split_on CHR ''\<newline>'' output) [] None"

definition address_print_command :: "string option \<Rightarrow> string" where
  "address_print_command interface =
     ''/ipv6 address print'' @
     (case interface of
        None \<Rightarrow> []
      | Some i \<Rightarrow> if i = [] then [] else '' where interface='' @ i)"

definition list_ipv6_addresses :: "conn \<Rightarrow> string option \<Rightarrow> address_entry list \<times> conn" where
  "list_ipv6_addresses c interface =
     (if \<not> is_connected c then ([], c)
      else
        let (output, c') = execute_command c (address_print_command interface)
        in case output of
             None \<Rightarrow> ([], c')
           | Some out \<Rightarrow>
               if out = [] then ([], c')
               else (case parse_ipv6_addresses out of
                       Inl _ \<Rightarrow> ([], c')
                     | Inr addresses \<Rightarrow> (addresses, c')))"

definition same_host :: "string \<Rightarrow> address_entry \<Rightarrow> bool" where
  \<comment> \<open>the comparison of \<open>_address_exists\<close> and \<open>_find_address_id\<close>\<close>
  "same_host address e =
     (host_part (ae_address e) = (if contains ''/'' address then host_part address else address))"

definition address_exists :: "conn \<Rightarrow> string \<Rightarrow> string \<Rightarrow> bool \<times> conn" where
  "address_exists c interface address =
     (let (addresses, c') = list_ipv6_addresses c (Some interface)
      in (list_ex (same_host address) addresses, c'))"

definition find_address_id :: "conn \<Rightarrow> string \<Rightarrow> string \<Rightarrow> string option \<times> conn" where
  "find_address_id c interface address =
     (let (addresses, c') = list_ipv6_addresses c (Some interface)
      in (map_option ae_id (find (same_host address) addresses), c'))"

definition dquote :: char where
  \<comment> \<open>the double quote character\<close>
  "dquote = CHR 0x22"

definition add_address_command :: "string \<Rightarrow> string \<Rightarrow> bool \<Rightarrow> string option \<Rightarrow> string" where
  "add_address_command interface address advertise comment =
     ''/ipv6 address add address='' @ address @ '' interface='' @ interface @
     '' advertise='' @ (if advertise then ''yes'' else ''no'') @
     (case comment of
        None \<Rightarrow> []
      | Some t \<Rightarrow> if t = [] then [] else '' comment='' @ [dquote] @ t @ [dquote])"

definition add_ipv6_address ::
  "conn \<Rightarrow> string \<Rightarrow> string \<Rightarrow> bool \<Rightarrow> string option \<Rightarrow> bool \<times> conn"
where
  "add_ipv6_address c interface address advertise comment =
     (if \<not> is_connected c then (False, c)
      else
        let (exists, c1) = address_exists c interface address in
        if exists then (True, c1)
        else
          let (output, c2) =
                execute_command c1 (add_address_command interface address advertise comment)
          in if rejected output then (False, c2) else (True, c2))"

definition remove_ipv6_address :: "conn \<Rightarrow> string \<Rightarrow> string \<Rightarrow> bool \<times> conn" where
  "remove_ipv6_address c interface address =
     (if \<not> is_connected c then (False, c)
      else
        let (address_id, c1) = find_address_id c interface address in
        case address_id of
          None \<Rightarrow> (True, c1)
        | Some i \<Rightarrow>
            if i = [] then (True, c1)
            else
              let (output, c2) = execute_command c1 (''/ipv6 address remove '' @ i)
              in if rejected output then (False, c2) else (True, c2))"


section \<open>IPv6 routes (\<open>modules/mikrotik_routes.py\<close>)\<close>

record route_entry =
  rt_id :: string
  rt_flags :: string
  rt_dst_address :: string
  rt_gateway :: string
  rt_distance :: string
  rt_comment :: string

definition rx_key_value :: "string \<Rightarrow> regex" where
  \<comment> \<open>\<open>key=([^\s]+)\<close>, where the key ends with \<open>=\<close>\<close>
  "rx_key_value key = seq [Lit key, Grp (Plus (CNot CSpace))]"

definition key_value :: "string \<Rightarrow> string \<Rightarrow> string option" where
  \<comment> \<open>\<open>if key in line: m = re.search(key([^\s]+), line); if m: ... m.group(1)\<close>\<close>
  "key_value key line =
     (if contains key line then
        (case re_search (rx_key_value key) line of Some [v] \<Rightarrow> Some v | _ \<Rightarrow> None)
      else None)"

definition set_dst_gateway :: "string \<Rightarrow> route_entry \<Rightarrow> route_entry" where
  "set_dst_gateway line r =
     (let r1 = (case key_value ''dst-address='' line of
                  None \<Rightarrow> r | Some v \<Rightarrow> r\<lparr>rt_dst_address := v\<rparr>)
      in case key_value ''gateway='' line of
           None \<Rightarrow> r1 | Some v \<Rightarrow> r1\<lparr>rt_gateway := v\<rparr>)"

definition set_distance_comment :: "string \<Rightarrow> route_entry \<Rightarrow> route_entry" where
  "set_distance_comment line r =
     (let r1 = (case key_value ''distance='' line of
                  None \<Rightarrow> r | Some v \<Rightarrow> r\<lparr>rt_distance := v\<rparr>)
      in case key_value ''comment='' line of
           None \<Rightarrow> r1 | Some v \<Rightarrow> r1\<lparr>rt_comment := strip_chars [dquote] v\<rparr>)"

fun parse_routes_loop ::
  "string list \<Rightarrow> route_entry list \<Rightarrow> route_entry option \<Rightarrow> route_entry list"
where
  \<comment> \<open>The loop of \<open>_parse_ipv6_routes\<close> and the append of the last route after it.
      A line that starts with a digit has a first field, so \<open>len(parts) >= 1\<close> holds
      whenever it is tested; the model keeps the test.\<close>
  "parse_routes_loop [] routes cur = (case cur of None \<Rightarrow> routes | Some r \<Rightarrow> routes @ [r])"
| "parse_routes_loop (raw # rest) routes cur =
     (let line = strip raw in
      if line = [] \<or> contains ''Flags:'' line then parse_routes_loop rest routes cur
      else if re_match rx_entry_start line \<noteq> None then
        (let routes' = (case cur of None \<Rightarrow> routes | Some r \<Rightarrow> routes @ [r]) in
         case split_ws line of
           [] \<Rightarrow> parse_routes_loop rest routes' None
         | p0 # _ \<Rightarrow>
             parse_routes_loop rest routes'
               (Some (set_distance_comment line (set_dst_gateway line
                  \<lparr>rt_id = p0, rt_flags = [], rt_dst_address = [], rt_gateway = [],
                   rt_distance = [], rt_comment = []\<rparr>))))
      else (case cur of
              None \<Rightarrow> parse_routes_loop rest routes cur
            | Some r \<Rightarrow> parse_routes_loop rest routes (Some (set_dst_gateway line r))))"

definition parse_ipv6_routes :: "string \<Rightarrow> route_entry list" where
  "parse_ipv6_routes output = parse_routes_loop (split_on CHR ''\<newline>'' output) [] None"

definition route_print_command :: "string option \<Rightarrow> string" where
  "route_print_command dst_address =
     ''/ipv6 route print'' @
     (case dst_address of
        None \<Rightarrow> []
      | Some d \<Rightarrow> if d = [] then [] else '' where dst-address='' @ d)"

definition list_ipv6_routes :: "conn \<Rightarrow> string option \<Rightarrow> route_entry list \<times> conn" where
  "list_ipv6_routes c dst_address =
     (if \<not> is_connected c then ([], c)
      else
        let (output, c') = execute_command c (route_print_command dst_address)
        in case output of
             None \<Rightarrow> ([], c')
           | Some out \<Rightarrow> if out = [] then ([], c') else (parse_ipv6_routes out, c'))"

definition same_route :: "string \<Rightarrow> string option \<Rightarrow> route_entry \<Rightarrow> bool" where
  \<comment> \<open>the test of \<open>_find_route_id\<close>\<close>
  "same_route dst_address gateway r =
     (rt_dst_address r = dst_address \<and>
      (case gateway of None \<Rightarrow> True | Some g \<Rightarrow> rt_gateway r = g))"

definition find_route_id :: "conn \<Rightarrow> string \<Rightarrow> string option \<Rightarrow> string option \<times> conn" where
  "find_route_id c dst_address gateway =
     (let (routes, c') = list_ipv6_routes c None
      in (map_option rt_id (find (same_route dst_address gateway) routes), c'))"

definition remove_ipv6_route :: "conn \<Rightarrow> string \<Rightarrow> string option \<Rightarrow> bool \<times> conn" where
  "remove_ipv6_route c dst_address gateway =
     (if \<not> is_connected c then (False, c)
      else
        let (route_id, c1) = find_route_id c dst_address gateway in
        case route_id of
          None \<Rightarrow> (True, c1)
        | Some i \<Rightarrow>
            if i = [] then (True, c1)
            else
              let (output, c2) = execute_command c1 (''/ipv6 route remove '' @ i)
              in if rejected output then (False, c2) else (True, c2))"

section \<open>L2TP server interfaces (\<open>modules/mikrotik_interfaces.py\<close>)\<close>

record l2tp_interface =
  if_id :: string
  if_flags :: string
  if_name :: string
  if_user :: string
  if_mtu :: string
  if_client_address :: string
  if_status :: string

definition rx_l2tp_server :: regex where
  \<comment> \<open>\<open>\s*(\d+)\s+([DRX\s]+)\s*<([^>]+)>\s+(\S+)\s+(\d+)\s+([\d\.]+)\<close>\<close>
  "rx_l2tp_server =
     seq [Star CSpace, Grp (Plus CDigit), Plus CSpace,
          Grp (Plus (COr (CChar CHR ''D'') (COr (CChar CHR ''R'') (COr (CChar CHR ''X'') CSpace)))),
          Star CSpace, Lit ''<'', Grp (Plus (CNot (CChar CHR ''>''))), Lit ''>'',
          Plus CSpace, Grp (Plus (CNot CSpace)), Plus CSpace, Grp (Plus CDigit),
          Plus CSpace, Grp (Plus (COr CDigit (CChar CHR ''.'')))]"

definition is_l2tp_header :: "string \<Rightarrow> bool" where
  "is_l2tp_header line =
     (contains ''NAME'' line \<and> contains ''USER'' line \<and> contains ''CLIENT-ADDRESS'' line)"

fun after_header :: "string list \<Rightarrow> string list option" where
  \<comment> \<open>\<open>lines[header_line + 1:]\<close> for the first header line; \<open>None\<close> when
      \<open>header_line\<close> stays \<open>-1\<close>.\<close>
  "after_header [] = None"
| "after_header (l # ls) = (if is_l2tp_header l then Some ls else after_header ls)"

definition l2tp_server_record :: "string \<Rightarrow> l2tp_interface option" where
  \<comment> \<open>the dict built from a matching line\<close>
  "l2tp_server_record line =
     (case re_match rx_l2tp_server line of
        Some [g1, g2, g3, g4, g5, g6] \<Rightarrow>
          Some \<lparr>if_id = strip g1, if_flags = strip g2, if_name = strip g3, if_user = strip g4,
                 if_mtu = strip g5, if_client_address = strip g6,
                 if_status = (if contains ''R'' g2 then ''running'' else ''disabled'')\<rparr>
      | _ \<Rightarrow> None)"

fun l2tp_server_rows :: "string list \<Rightarrow> l2tp_interface list" where
  "l2tp_server_rows [] = []"
| "l2tp_server_rows (raw # rest) =
     (let line = strip raw in
      if line = [] then l2tp_server_rows rest
      else (case l2tp_server_record line of
              None \<Rightarrow> l2tp_server_rows rest
            | Some info \<Rightarrow>
                if contains ''R'' (if_flags info) then info # l2tp_server_rows rest
                else l2tp_server_rows rest))"

definition parse_l2tp_server_output :: "string \<Rightarrow> l2tp_interface list" where
  "parse_l2tp_server_output output =
     (case after_header (split_on CHR ''\<newline>'' output) of
        None \<Rightarrow> []
      | Some rows \<Rightarrow> l2tp_server_rows rows)"

section \<open>The L2TP manager (\<open>modules/mikrotik_l2tp_manager.py\<close>)\<close>

definition rx_tunnel_token :: regex where
  \<comment> \<open>\<open><([^>]*l2tp[^>]*)>\<close>\<close>
  "rx_tunnel_token =
     seq [Lit ''<'',
          Grp (seq [Star (CNot (CChar CHR ''>'')), Lit ''l2tp'', Star (CNot (CChar CHR ''>''))]),
          Lit ''>'']"

definition tunnel_token :: "string \<Rightarrow> string option" where
  \<comment> \<open>group 1 of \<open>re.search\<close> on the line as the device wrote it\<close>
  "tunnel_token line = (case re_search rx_tunnel_token line of Some [g] \<Rightarrow> Some g | _ \<Rightarrow> None)"

definition names_tunnel :: "string \<Rightarrow> string \<Rightarrow> bool" where
  \<comment> \<open>\<open>tunnel_name_lower in line_lower and 'l2tp-' in line_lower\<close>\<close>
  "names_tunnel tunnel_name line =
     (contains (lower tunnel_name) (lower line) \<and> contains ''l2tp-'' (lower line))"

fun find_tunnel_in_lines :: "string \<Rightarrow> string list \<Rightarrow> string option" where
  "find_tunnel_in_lines tunnel_name [] = None"
| "find_tunnel_in_lines tunnel_name (line # rest) =
     (if names_tunnel tunnel_name line then
        (case tunnel_token line of
           Some interface_name \<Rightarrow> Some interface_name
         | None \<Rightarrow> find_tunnel_in_lines tunnel_name rest)
      else find_tunnel_in_lines tunnel_name rest)"

definition find_l2tp_tunnel_by_name :: "conn \<Rightarrow> string \<Rightarrow> string option \<times> conn" where
  "find_l2tp_tunnel_by_name c tunnel_name =
     (let (output, c') = execute_command c ''/interface l2tp-server print''
      in case output of
           None \<Rightarrow> (None, c')
         | Some out \<Rightarrow>
             if out = [] then (None, c')
             else (find_tunnel_in_lines tunnel_name (split_on CHR ''\<newline>'' out), c'))"

definition step_failed :: "string \<Rightarrow> string option \<Rightarrow> bool" where
  \<comment> \<open>A configuration step returns \<open>False\<close>: the reply is rejected and does not hold the
      marker of the fact being there already.\<close>
  "step_failed marker output =
     (rejected output \<and>
      (case output of None \<Rightarrow> False | Some s \<Rightarrow> \<not> contains marker (lower s)))"

definition configure_l2tp_server_tunnel ::
  "conn \<Rightarrow> string \<Rightarrow> string \<Rightarrow> string \<Rightarrow> string \<Rightarrow> string \<Rightarrow> bool \<times> conn"
where
  "configure_l2tp_server_tunnel c tunnel_name server_ip client_ip route_network route_gateway =
     (if \<not> is_connected c then (False, c)
      else
        let (tunnel_interface, c1) = find_l2tp_tunnel_by_name c tunnel_name in
        case tunnel_interface of
          None \<Rightarrow> (False, c1)
        | Some interface \<Rightarrow>
            if interface = [] then (False, c1)
            else
              let add_ip_cmd = ''/ipv6 address add address='' @ server_ip @ ''/126'' @
                    '' interface='' @ interface @ '' advertise=no'';
                  (output, c2) = execute_command c1 add_ip_cmd
              in if step_failed ''already have such address'' output then (False, c2)
                 else
                   let route_cmd = ''/ipv6 route add dst-address='' @ route_network @
                         '' gateway='' @ route_gateway @
                         '' distance=1 check-gateway=ping comment='' @
                         [dquote] @ ''Route-'' @ upper tunnel_name @ [dquote];
                       (output2, c3) = execute_command c2 route_cmd
                   in if step_failed ''already have such route'' output2 then (False, c3)
                      else (True, c3))"


section \<open>Connectivity tests (\<open>modules/mikrotik_connectivity_tests.py\<close>)\<close>

text \<open>
  Python's \<open>float\<close> values are modelled as rationals: the value of a decimal numeral is
  exact here and rounded to a double in Python. The integers of a ping summary are the
  same in both.
\<close>

record ping_result =
  pr_target :: string
  pr_success :: bool
  pr_packets_sent :: nat
  pr_packets_received :: nat
  pr_packet_loss_percent :: rat
  pr_avg_time_ms :: rat
  pr_min_time_ms :: rat
  pr_max_time_ms :: rat
  pr_times :: "rat list"
  pr_raw_output :: string

definition rx_decimal :: regex where
  \<comment> \<open>\<open>(\d+(?:\.\d+)?)\<close>\<close>
  "rx_decimal = Grp (seq [Plus CDigit, Opt (seq [Lit ''.'', Plus CDigit])])"

definition rx_time :: regex where
  \<comment> \<open>\<open>time=(\d+(?:\.\d+)?)ms\<close>\<close>
  "rx_time = seq [Lit ''time='', rx_decimal, Lit ''ms'']"

definition rx_stats :: regex where
  \<comment> \<open>\<open>(\d+) packets transmitted, (\d+) received, (\d+)% packet loss\<close>\<close>
  "rx_stats =
     seq [Grp (Plus CDigit), Lit '' packets transmitted, '', Grp (Plus CDigit),
          Lit '' received, '', Grp (Plus CDigit), Lit ''% packet loss'']"

definition rx_round_trip :: regex where
  \<comment> \<open>\<open>min/avg/max = (\d+(?:\.\d+)?)/(\d+(?:\.\d+)?)/(\d+(?:\.\d+)?) ms\<close>\<close>
  "rx_round_trip =
     seq [Lit ''min/avg/max = '', rx_decimal, Lit ''/'', rx_decimal, Lit ''/'', rx_decimal,
          Lit '' ms'']"

definition float_of :: "string \<Rightarrow> rat" where
  \<comment> \<open>\<open>float(s)\<close> for \<open>s\<close> matched by \<open>\d+(?:\.\d+)?\<close>\<close>
  "float_of s =
     (case split_on CHR ''.'' s of
        [a, b] \<Rightarrow> of_nat (int_of_digits a) + of_nat (int_of_digits b) / 10 ^ length b
      | _ \<Rightarrow> of_nat (int_of_digits s))"

definition packet_time :: "string \<Rightarrow> rat option" where
  \<comment> \<open>the time of a per-packet line, if the line has one\<close>
  "packet_time line =
     (if contains ''time='' line \<and> contains ''bytes from'' line then
        (case re_search rx_time line of Some [t] \<Rightarrow> Some (float_of t) | _ \<Rightarrow> None)
      else None)"

definition read_stats :: "string \<Rightarrow> ping_result \<Rightarrow> ping_result" where
  "read_stats line r =
     (if contains ''packets transmitted'' line then
        (case re_search rx_stats line of
           Some [g1, g2, g3] \<Rightarrow>
             r\<lparr>pr_packets_sent := int_of_digits g1,
               pr_packets_received := int_of_digits g2,
               pr_packet_loss_percent := of_nat (int_of_digits g3),
               pr_success := (int_of_digits g3 < 100)\<rparr>
         | _ \<Rightarrow> r)
      else r)"

definition read_round_trip :: "string \<Rightarrow> ping_result \<Rightarrow> ping_result" where
  "read_round_trip line r =
     (if contains ''round-trip'' line \<and> contains ''min/avg/max'' line then
        (case re_search rx_round_trip line of
           Some [g1, g2, g3] \<Rightarrow>
             r\<lparr>pr_min_time_ms := float_of g1,
               pr_avg_time_ms := float_of g2,
               pr_max_time_ms := float_of g3\<rparr>
         | _ \<Rightarrow> r)
      else r)"

definition read_summary_line :: "ping_result \<Rightarrow> string \<Rightarrow> ping_result" where
  \<comment> \<open>the body of the second loop of \<open>_parse_ping_output\<close>\<close>
  "read_summary_line r line = read_round_trip line (read_stats line r)"

definition use_packet_times :: "rat list \<Rightarrow> ping_result \<Rightarrow> py_error + ping_result" where
  \<comment> \<open>the last block of \<open>_parse_ping_output\<close>; \<open>result.get('packets_sent', 4)\<close> reads the
      key, which the result always has\<close>
  "use_packet_times ping_times r =
     (case ping_times of
        [] \<Rightarrow> Inr r
      | t # ts \<Rightarrow>
          if pr_avg_time_ms r = 0 then
            (if pr_packets_sent r = 0 then Inl ZeroDivisionError
             else
               Inr (r\<lparr>pr_times := ping_times,
                       pr_min_time_ms := foldl min t ts,
                       pr_max_time_ms := foldl max t ts,
                       pr_avg_time_ms := sum_list ping_times / of_nat (length ping_times),
                       pr_packets_received := length ping_times,
                       pr_packet_loss_percent :=
                         max 0 (100 - of_nat (length ping_times) / of_nat (pr_packets_sent r) * 100),
                       pr_success := True\<rparr>))
          else Inr r)"

definition parse_ping_output :: "string \<Rightarrow> string \<Rightarrow> py_error + ping_result" where
  "parse_ping_output output target =
     (let lines = split_on CHR ''\<newline>'' output;
          result = \<lparr>pr_target = target, pr_success = False, pr_packets_sent = 0,
                    pr_packets_received = 0, pr_packet_loss_percent = 100,
                    pr_avg_time_ms = 0, pr_min_time_ms = 0, pr_max_time_ms = 0,
                    pr_times = [], pr_raw_output = output\<rparr>;
          ping_times = List.map_filter packet_time lines
      in use_packet_times ping_times (foldl read_summary_line result lines))"

datatype ping_report =
    PingFailure string string   \<comment> \<open>\<open>{'target', 'success': False, 'error'}\<close>\<close>
  | PingStats ping_result

definition ping_ipv6 :: "conn \<Rightarrow> string \<Rightarrow> nat \<Rightarrow> ping_report \<times> conn" where
  "ping_ipv6 c target count =
     (let (output, c') = execute_command c
            (''/ping address='' @ target @ '' count='' @ str_of_nat count @ '' ipv6=yes'')
      in case output of
           None \<Rightarrow> (PingFailure target ''Nenhuma resposta do comando ping'', c')
         | Some out \<Rightarrow>
             if out = [] then (PingFailure target ''Nenhuma resposta do comando ping'', c')
             else (case parse_ping_output out target of
                     Inl ZeroDivisionError \<Rightarrow> (PingFailure target ''division by zero'', c')
                   | Inl _ \<Rightarrow> (PingFailure target [], c')
                   | Inr r \<Rightarrow> (PingStats r, c')))"

definition report_success :: "ping_report \<Rightarrow> bool" where
  "report_success p = (case p of PingFailure _ _ \<Rightarrow> False | PingStats r \<Rightarrow> pr_success r)"

record mtu_result =
  max_mtu :: nat
  recommended_mtu :: nat
  tested_sizes :: "nat list"

definition mtu_sizes :: "nat list" where
  "mtu_sizes = [1280, 1300, 1400, 1500, 1600, 1700, 1800, 1900, 2000]"

definition mtu_command :: "string \<Rightarrow> nat \<Rightarrow> string" where
  "mtu_command target size' =
     ''/ping address='' @ target @ '' count=1 size='' @ str_of_nat size' @
     '' do-not-fragment=yes ipv6=yes''"

definition mtu_reply_ok :: "string option \<Rightarrow> bool" where
  \<comment> \<open>\<open>output and ('time=' in output or 'received' in output)\<close>\<close>
  "mtu_reply_ok output =
     (case output of
        None \<Rightarrow> False
      | Some s \<Rightarrow> s \<noteq> [] \<and> (contains ''time='' s \<or> contains ''received'' s))"

fun mtu_scan :: "conn \<Rightarrow> string \<Rightarrow> nat list \<Rightarrow> nat \<Rightarrow> nat \<times> conn" where
  \<comment> \<open>the \<open>for size in mtu_sizes\<close> loop with its \<open>break\<close>; the result is
      \<open>max_working_mtu\<close>\<close>
  "mtu_scan c target [] max_working_mtu = (max_working_mtu, c)"
| "mtu_scan c target (size' # rest) max_working_mtu =
     (let (output, c') = execute_command c (mtu_command target size')
      in if mtu_reply_ok output then mtu_scan c' target rest size'
         else (max_working_mtu, c'))"

definition index_of :: "nat list \<Rightarrow> nat \<Rightarrow> py_error + nat" where
  \<comment> \<open>\<open>list.index\<close>\<close>
  "index_of xs x = (if x \<in> set xs then Inr (length (takeWhile (\<lambda>y. y \<noteq> x) xs)) else Inl ValueError)"

definition test_mtu_ipv6 :: "conn \<Rightarrow> string \<Rightarrow> (py_error + mtu_result) \<times> conn" where
  "test_mtu_ipv6 c target =
     (let (max_working_mtu, c') = mtu_scan c target mtu_sizes 0;
          recommended = (if max_working_mtu > 20 then max_working_mtu - 20 else max_working_mtu)
      in if max_working_mtu > 0 then
           (case index_of mtu_sizes max_working_mtu of
              Inl e \<Rightarrow> (Inl e, c')
            | Inr i \<Rightarrow>
                (Inr \<lparr>max_mtu = max_working_mtu, recommended_mtu = recommended,
                      tested_sizes = take (i + 1) mtu_sizes\<rparr>, c'))
         else (Inr \<lparr>max_mtu = max_working_mtu, recommended_mtu = recommended,
                    tested_sizes = []\<rparr>, c'))"

section \<open>Desired-state files (\<open>mikrotik_l2tp_automation.py\<close>)\<close>

record tunnel_config =
  tc_client_hostname :: string
  tc_server_ip :: string
  tc_client_ip :: string
  tc_route_network :: string
  tc_gateway :: string

type_synonym tunnel_mappings = "(string \<times> tunnel_config) list"
  \<comment> \<open>the dict \<open>mappings\<close>, in insertion order\<close>

record load_state =
  mappings :: tunnel_mappings
  warnings :: "nat list"   \<comment> \<open>the numbers of the lines \<open>logger.warning\<close> reported\<close>

definition is_skipped_line :: "string \<Rightarrow> bool" where
  \<comment> \<open>\<open>not line or line.startswith('#')\<close>, after \<open>strip\<close>\<close>
  "is_skipped_line raw = (strip raw = [] \<or> startswith (strip raw) ''#'')"

definition fields_of :: "string \<Rightarrow> string list" where
  "fields_of raw = split_on CHR '','' (strip raw)"

definition load_tunnel_line :: "load_state \<Rightarrow> nat \<times> string \<Rightarrow> load_state" where
  \<comment> \<open>the body of the loop over \<open>enumerate(f, 1)\<close>; six parts always unpack into the
      six names\<close>
  "load_tunnel_line st numbered_line =
     (case numbered_line of
        (line_num, raw) \<Rightarrow>
          if is_skipped_line raw then st
          else if length (fields_of raw) \<noteq> 6 then st\<lparr>warnings := warnings st @ [line_num]\<rparr>
          else (case map strip (fields_of raw) of
                  [tunnel_name, hostname, sip, cip, network, gw] \<Rightarrow>
                    st\<lparr>mappings := AList.update tunnel_name
                         \<lparr>tc_client_hostname = hostname, tc_server_ip = sip, tc_client_ip = cip,
                          tc_route_network = network, tc_gateway = gw\<rparr> (mappings st)\<rparr>
                | _ \<Rightarrow> st))"

definition numbered :: "string list \<Rightarrow> (nat \<times> string) list" where
  \<comment> \<open>\<open>enumerate(f, 1)\<close>\<close>
  "numbered file_lines = zip [1 ..< Suc (length file_lines)] file_lines"

definition load_tunnel_mapping :: "string list \<Rightarrow> load_state" where
  \<comment> \<open>\<open>load_tunnel_mapping\<close> on the lines of a file that was opened and decoded\<close>
  "load_tunnel_mapping file_lines =
     foldl load_tunnel_line \<lparr>mappings = [], warnings = []\<rparr> (numbered file_lines)"

definition well_formed_line :: "string \<Rightarrow> bool" where
  \<comment> \<open>a line that is neither blank nor a comment and has exactly six fields\<close>
  "well_formed_line raw = (\<not> is_skipped_line raw \<and> length (fields_of raw) = 6)"

definition line_tunnel_name :: "string \<Rightarrow> string" where
  \<comment> \<open>the first field of a line, stripped\<close>
  "line_tunnel_name raw = (case fields_of raw of [] \<Rightarrow> [] | f # _ \<Rightarrow> strip f)"


section \<open>Sample device replies and files\<close>

definition sample_l2tp_listing :: string where
  \<comment> \<open>a reply to \<open>/interface l2tp-server print\<close>: one running and one disabled interface\<close>
  "sample_l2tp_listing =
     ''Flags: X - disabled, D - dynamic, R - running\<newline>'' @
     '' #     NAME              USER       MTU CLIENT-ADDRESS\<newline>'' @
     '' 0  DR <l2tp-caetite>    caetite   1450 10.0.0.2\<newline>'' @
     '' 1  X  <l2tp-old>        old       1450 10.0.0.3''"

definition sample_address_listing :: string where
  \<comment> \<open>a reply to \<open>/ipv6 address print where interface=bridge\<close>: one address\<close>
  "sample_address_listing =
     ''Flags: X - disabled, I - invalid, D - dynamic, G - global, L - link-local\<newline>'' @
     '' #    ADDRESS                 FROM-POOL INTERFACE   ADVERTISE\<newline>'' @
     '' 0  G 2001:db8::1/64                    bridge      no''"

definition conflict_reply :: string where
  \<comment> \<open>what the device answers to an add of an address it has\<close>
  "conflict_reply = ''failure: already have such address''"

definition router_with_address :: conn where
  \<comment> \<open>a router whose bridge has the address \<open>2001:db8::1/64\<close>\<close>
  "router_with_address =
     \<lparr>has_connection = True,
      device = (\<lambda>history command.
        if command = ''/ipv6 address print where interface=bridge'' then Some sample_address_listing
        else if startswith command ''/ipv6 address add address=2001:db8::1/'' then Some conflict_reply
        else Some []),
      sent = []\<rparr>"

definition l2tp_server_router :: conn where
  \<comment> \<open>an L2TP server with the tunnel of \<open>sample_l2tp_listing\<close>, whose tunnel
      interface has its address already\<close>
  "l2tp_server_router =
     \<lparr>has_connection = True,
      device = (\<lambda>history command.
        if command = ''/interface l2tp-server print'' then Some sample_l2tp_listing
        else if startswith command ''/ipv6 address add'' then Some conflict_reply
        else Some []),
      sent = []\<rparr>"

definition sample_target :: string where
  "sample_target = ''2001:db8::1''"

definition mtu_1300_router :: conn where
  \<comment> \<open>a router on which probes of 1280 and 1300 bytes are answered and larger ones are not\<close>
  "mtu_1300_router =
     \<lparr>has_connection = True,
      device = (\<lambda>history command.
        if command = mtu_command sample_target 1280 \<or> command = mtu_command sample_target 1300
        then Some ''  0 2001:db8::1 56 64 time=3ms echo reply''
        else None),
      sent = []\<rparr>"

definition one_packet_output :: string where
  "one_packet_output = ''64 bytes from 2001:db8::1: icmp_seq=1 ttl=64 time=12ms''"

definition packets_only_output :: string where
  \<comment> \<open>per-packet lines and no summary\<close>
  "packets_only_output =
     ''64 bytes from 2001:db8::1: icmp_seq=1 ttl=64 time=12ms\<newline>'' @
     ''64 bytes from 2001:db8::1: icmp_seq=2 ttl=64 time=14ms\<newline>'' @
     ''64 bytes from 2001:db8::1: icmp_seq=3 ttl=64 time=10ms''"

definition ping_router :: conn where
  \<comment> \<open>a router that answers a ping with the per-packet lines only\<close>
  "ping_router =
     \<lparr>has_connection = True,
      device = (\<lambda>history command.
        if startswith command ''/ping '' then Some packets_only_output else Some []),
      sent = []\<rparr>"

definition two_address_listing :: string where
  "two_address_listing =
     ''Flags: X - disabled, I - invalid, D - dynamic, G - global, L - link-local\<newline>'' @
     '' #    ADDRESS                 FROM-POOL INTERFACE   ADVERTISE\<newline>'' @
     '' 0  G 2001:db8::1/64                    bridge      no\<newline>'' @
     '' 1  G 2001:db8::2/64                    bridge      no''"

definition router_two_addresses :: conn where
  \<comment> \<open>a router whose bridge has these two addresses; it refuses to add one again\<close>
  "router_two_addresses =
     \<lparr>has_connection = True,
      device = (\<lambda>history command.
        if command = ''/ipv6 address print where interface=bridge'' then Some two_address_listing
        else if startswith command ''/ipv6 address add'' then Some conflict_reply
        else Some []),
      sent = []\<rparr>"

definition sample_route_listing :: string where
  "sample_route_listing =
     ''Flags: X - disabled, A - active, D - dynamic, S - static\<newline>'' @
     '' 0 A S dst-address=::/0 gateway=2001:db8::ffff distance=1\<newline>'' @
     '' 1 A S dst-address=2001:db8:14::/126 gateway=2001:db8::12 distance=1''"

definition configured_router :: conn where
  \<comment> \<open>a router with two addresses on the bridge and two routes\<close>
  "configured_router =
     \<lparr>has_connection = True,
      device = (\<lambda>history command.
        if command = ''/ipv6 address print where interface=bridge'' then Some two_address_listing
        else if command = ''/ipv6 route print'' then Some sample_route_listing
        else Some []),
      sent = []\<rparr>"

definition mixed_case_listing :: string where
  \<comment> \<open>a reply to \<open>/interface l2tp-server print\<close> with names in capitals and two
      tunnels whose names share a part\<close>
  "mixed_case_listing =
     ''Flags: X - disabled, D - dynamic, R - running\<newline>'' @
     '' #     NAME              USER       MTU CLIENT-ADDRESS\<newline>'' @
     '' 0  DR <l2tp-CAETITE>    CAETITE   1450 10.0.0.2\<newline>'' @
     '' 1  DR <l2tp-site12>     site12    1450 10.0.0.3\<newline>'' @
     '' 2  DR <l2tp-site1>      site1     1450 10.0.0.4''"

definition ping_summary_line :: string where
  "ping_summary_line = ''4 packets transmitted, 4 received, 0% packet loss''"

definition ping_round_trip_line :: string where
  "ping_round_trip_line = ''round-trip min/avg/max = 15/15/16 ms''"

definition ping_summary :: string where
  \<comment> \<open>the summary line and the round-trip line\<close>
  "ping_summary = ping_summary_line @ ''\<newline>'' @ ping_round_trip_line"

definition ping_output_with_summary :: "string list \<Rightarrow> string" where
  \<comment> \<open>a ping reply: any lines, each ended by a newline, then the summary\<close>
  "ping_output_with_summary before =
     concat (map (\<lambda>l. l @ ''\<newline>'') before) @ ping_summary"

definition malformed_line :: "string \<Rightarrow> bool" where
  \<comment> \<open>a line that is neither blank nor a comment and has not six fields\<close>
  "malformed_line raw = (\<not> is_skipped_line raw \<and> length (fields_of raw) \<noteq> 6)"

definition repeated_name_file :: "string list" where
  \<comment> \<open>two well-formed lines for the same tunnel\<close>
  "repeated_name_file =
     [''caetite, host-a, 2001:db8::11, 2001:db8::12, 2001:db8::14/126, 2001:db8::12\<newline>'',
      ''caetite, host-b, 2001:db8::21, 2001:db8::22, 2001:db8::24/126, 2001:db8::22\<newline>'']"

definition sample_tunnel_file :: "string list" where
  \<comment> \<open>a comment, a blank line, a line of five fields and two well-formed lines\<close>
  "sample_tunnel_file =
     [''# tunnel_name, client_hostname, server_ip, client_ip, route_network, gateway\<newline>'',
      ''\<newline>'',
      ''caetite, host-a, 2001:db8::11, 2001:db8::12, 2001:db8::14/126, 2001:db8::12\<newline>'',
      ''broken, host-x, 2001:db8::31, 2001:db8::32, 2001:db8::34/126\<newline>'',
      ''guanambi, host-b, 2001:db8::21, 2001:db8::22, 2001:db8::24/126, 2001:db8::22\<newline>'']"

section \<open>The lookup of a tunnel, in the words of the specification\<close>

text \<open>
  These definitions do not use the regular expression of the code. The texts in angle
  brackets of a line are read off the line itself, and the interface token is found with
  the case ignored.
\<close>

fun bracket_tokens :: "string \<Rightarrow> string list" where
  \<comment> \<open>for every \<open><\<close> of the line that has a \<open>>\<close> after it, the text between the two\<close>
  "bracket_tokens [] = []"
| "bracket_tokens (x # xs) =
     (if x = CHR ''<'' \<and> CHR ''>'' \<in> set xs
      then takeWhile (\<lambda>c. c \<noteq> CHR ''>'') xs # bracket_tokens xs
      else bracket_tokens xs)"

definition interface_token :: "string \<Rightarrow> string option" where
  \<comment> \<open>the angle-bracketed interface token: the first bracketed text that names an L2TP
      interface, in any case\<close>
  "interface_token line = find (\<lambda>t. contains ''l2tp'' (lower t)) (bracket_tokens line)"

definition candidate_line :: "string \<Rightarrow> bool" where
  \<comment> \<open>a line of an L2TP interface: it holds \<open>l2tp-\<close> in any case and has an interface
      token\<close>
  "candidate_line line = (contains ''l2tp-'' (lower line) \<and> interface_token line \<noteq> None)"

definition holds_name :: "string \<Rightarrow> string \<Rightarrow> bool" where
  \<comment> \<open>the name is a part of the text, case ignored\<close>
  "holds_name tunnel_name text' = contains (lower tunnel_name) (lower text')"

definition claimed_lookup :: "string \<Rightarrow> string list \<Rightarrow> string option" where
  \<comment> \<open>the lookup as the claim words it: the name is matched against the line and
      against the interface token; the token of the first matching line is returned\<close>
  "claimed_lookup tunnel_name ls =
     (case find (\<lambda>line. candidate_line line \<and> holds_name tunnel_name line
                    \<and> (case interface_token line of
                          None \<Rightarrow> False
                        | Some t \<Rightarrow> holds_name tunnel_name t)) ls of
        None \<Rightarrow> None
      | Some line \<Rightarrow> interface_token line)"

definition line_lookup :: "string \<Rightarrow> string list \<Rightarrow> string option" where
  \<comment> \<open>the lookup that matches the name against the text of the line only\<close>
  "line_lookup tunnel_name ls =
     (case find (\<lambda>line. candidate_line line \<and> holds_name tunnel_name line) ls of
        None \<Rightarrow> None
      | Some line \<Rightarrow> interface_token line)"

definition written_small :: "string \<Rightarrow> bool" where
  \<comment> \<open>every bracketed text of the line that names an L2TP interface writes \<open>l2tp\<close> in
      small letters\<close>
  "written_small line =
     list_all (\<lambda>t. contains ''l2tp'' t \<or> \<not> contains ''l2tp'' (lower t)) (bracket_tokens line)"

definition listing_lines :: "conn \<Rightarrow> string list" where
  \<comment> \<open>the lines of the reply the device gives next to the listing command; none when
      it gives no reply\<close>
  "listing_lines c =
     (case device c (sent c) ''/interface l2tp-server print'' of
        None \<Rightarrow> []
      | Some output \<Rightarrow> split_on CHR ''\<newline>'' output)"

abbreviation not_closing :: "char \<Rightarrow> bool" where
  "not_closing \<equiv> (\<lambda>c. c \<noteq> CHR ''>'')"

abbreviation cls_not_closing :: cclass where
  "cls_not_closing \<equiv> CNot (CChar CHR ''>'')"

definition token_body :: "string \<Rightarrow> regex" where
  \<comment> \<open>\<open>[^>]*p[^>]*\<close> for a literal text \<open>p\<close>, the group of \<open>rx_tunnel_token\<close>\<close>
  "token_body p = Cat (Star cls_not_closing) (Cat (Lit p) (Star cls_not_closing))"

definition mixed_case_router :: conn where
  \<comment> \<open>an L2TP server that answers with \<open>mixed_case_listing\<close>\<close>
  "mixed_case_router =
     \<lparr>has_connection = True,
      device = (\<lambda>history command.
        if command = ''/interface l2tp-server print'' then Some mixed_case_listing else Some []),
      sent = []\<rparr>"

definition user_column_router :: conn where
  \<comment> \<open>an L2TP server with one tunnel, of the interface \<open>l2tp-site9\<close> and the user
      \<open>caetite\<close>\<close>
  "user_column_router =
     \<lparr>has_connection = True,
      device = (\<lambda>history command.
        if command = ''/interface l2tp-server print''
        then Some (''Flags: X - disabled, D - dynamic, R - running\<newline>'' @
                   '' #     NAME              USER       MTU CLIENT-ADDRESS\<newline>'' @
                   '' 0  DR <l2tp-site9>      caetite   1450 10.0.0.2'')
        else Some []),
      sent = []\<rparr>"

definition capital_token_line :: string where
  \<comment> \<open>a line whose interface name is written in capitals\<close>
  "capital_token_line = '' 0  DR <L2TP-CAETITE>    caetite   1450 10.0.0.2''"

section \<open>The tunnel mapping, in the words of the specification\<close>

definition line_config :: "string \<Rightarrow> tunnel_config" where
  \<comment> \<open>the second to the sixth field of a line of six fields, each without the
      whitespace around it\<close>
  "line_config raw =
     (case map strip (fields_of raw) of
        [tunnel_name, hostname, sip, cip, network, gw] \<Rightarrow>
          \<lparr>tc_client_hostname = hostname, tc_server_ip = sip, tc_client_ip = cip,
           tc_route_network = network, tc_gateway = gw\<rparr>
      | _ \<Rightarrow> \<lparr>tc_client_hostname = [], tc_server_ip = [], tc_client_ip = [],
              tc_route_network = [], tc_gateway = []\<rparr>)"

definition line_entry :: "string \<Rightarrow> string \<times> tunnel_config" where
  \<comment> \<open>the tunnel name of a line and its configuration\<close>
  "line_entry raw = (line_tunnel_name raw, line_config raw)"

section \<open>Facts about strings\<close>

lemma set_strip: "set (strip s) \<subseteq> set s"
  unfolding strip_def by (metis set_dropWhileD set_rev subsetI)

lemma contains_single: "contains [c] s = (c \<in> set s)"
  by (induction s) auto

section \<open>Facts about the connection\<close>

lemma execute_command_connected:
  "has_connection (snd (execute_command c command)) = has_connection c"
  by (simp add: execute_command_def)

lemma execute_command_sent:
  "has_connection c \<Longrightarrow> sent (snd (execute_command c command)) = sent c @ [command]"
  by (simp add: execute_command_def)

lemma list_ipv6_addresses_connected:
  "has_connection (snd (list_ipv6_addresses c i)) = has_connection c"
  by (simp add: list_ipv6_addresses_def is_connected_def execute_command_def
           split: option.splits sum.splits)

section \<open>The L2TP server parser returns running interfaces only\<close>

lemma l2tp_server_record_running:
  assumes "l2tp_server_record line = Some info" and "contains ''R'' (if_flags info)"
  shows "if_status info = ''running''"
proof -
  from assms(1) obtain g1 g2 g3 g4 g5 g6 where
    info: "info = \<lparr>if_id = strip g1, if_flags = strip g2, if_name = strip g3, if_user = strip g4,
                 if_mtu = strip g5, if_client_address = strip g6,
                 if_status = (if contains ''R'' g2 then ''running'' else ''disabled'')\<rparr>"
    unfolding l2tp_server_record_def
    by (auto split: option.splits list.splits)
  from assms(2) have "CHR ''R'' \<in> set (strip g2)"
    by (simp add: info contains_single)
  then have "CHR ''R'' \<in> set g2" using set_strip by blast
  then show ?thesis by (simp add: info contains_single)
qed

lemma l2tp_server_rows_running:
  "r \<in> set (l2tp_server_rows ls) \<Longrightarrow> CHR ''R'' \<in> set (if_flags r) \<and> if_status r = ''running''"
proof (induction ls)
  case Nil
  then show ?case by simp
next
  case (Cons raw rest)
  then show ?case
    by (auto simp: Let_def contains_single dest: l2tp_server_record_running
             split: if_splits option.splits)
qed

text \<open>
  Claim C9. Every record that \<open>_parse_l2tp_server_output\<close> returns has the flag \<open>R\<close> in its
  flags and the status \<open>running\<close>: a row whose flag column has no \<open>R\<close> is left out of the
  result, it is not returned with another status.
\<close>

theorem l2tp_server_parser_only_running:
  "\<forall>r \<in> set (parse_l2tp_server_output output).
     CHR ''R'' \<in> set (if_flags r) \<and> if_status r = ''running''"
  unfolding parse_l2tp_server_output_def
  by (auto split: option.splits dest: l2tp_server_rows_running)

lemma l2tp_server_listing_parsed:
  "parse_l2tp_server_output sample_l2tp_listing
   = [\<lparr>if_id = ''0'', if_flags = ''DR'', if_name = ''l2tp-caetite'', if_user = ''caetite'',
        if_mtu = ''1450'', if_client_address = ''10.0.0.2'', if_status = ''running''\<rparr>]"
  by code_simp

theorem l2tp_server_parser_only_running_witness:
  "map if_name (parse_l2tp_server_output sample_l2tp_listing) = [''l2tp-caetite'']
   \<and> list_all (\<lambda>r. CHR ''R'' \<in> set (if_flags r) \<and> if_status r = ''running'')
        (parse_l2tp_server_output sample_l2tp_listing)"
  using l2tp_server_parser_only_running [of sample_l2tp_listing]
  by (simp add: l2tp_server_listing_parsed list_all_iff)


section \<open>Classifying the reply to an address add\<close>

lemma step_failed_iff:
  "step_failed marker (Some s) =
     (s \<noteq> [] \<and> (contains ''syntax error'' (lower s) \<or> contains ''failure'' (lower s))
      \<and> \<not> contains marker (lower s))"
  by (simp add: step_failed_def rejected_def)

lemma conflict_reply_is_no_failed_step:
  "step_failed ''already have such address'' (Some conflict_reply) = False"
  by code_simp

text \<open>
  A rejected reply makes \<open>add_ipv6_address\<close> fail, whatever else the reply holds.
\<close>

lemma add_ipv6_address_rejected:
  assumes "has_connection c"
    and "\<not> list_ex (same_host address) (fst (list_ipv6_addresses c (Some interface)))"
    and "rejected (fst (execute_command (snd (list_ipv6_addresses c (Some interface)))
            (add_address_command interface address advertise comment)))"
  shows "fst (add_ipv6_address c interface address advertise comment) = False"
  using assms
  by (simp add: add_ipv6_address_def address_exists_def is_connected_def split_beta)

text \<open>
  Claim C1. A reply to an address add that holds a rejection marker and not the marker
  \<open>already have such address\<close> makes the operation fail, and a reply that holds that marker
  counts as success. The tunnel configuration does so (\<open>step_failed\<close>). \<open>add_ipv6_address\<close>
  does not look for the marker. On a router whose bridge has \<open>2001:db8::1/64\<close>, the request
  for \<open>2001:0db8::1/64\<close> (the same address, written with a leading zero) finds no equal
  text in the listing, the add is sent and answered \<open>failure: already have such address\<close>,
  and the operation returns \<open>False\<close>; \<open>configure_l2tp_server_tunnel\<close> returns \<open>True\<close> on the
  same answer.
\<close>

theorem add_ipv6_address_fails_on_conflict_reply:
  "map ae_address (fst (list_ipv6_addresses router_two_addresses (Some ''bridge'')))
     = [''2001:db8::1/64'']
   \<and> sent (snd (add_ipv6_address router_two_addresses ''bridge'' ''2001:0db8::1/64'' False None))
       = [''/ipv6 address print where interface=bridge'',
          ''/ipv6 address add address=2001:0db8::1/64 interface=bridge advertise=no'']
   \<and> fst (add_ipv6_address router_two_addresses ''bridge'' ''2001:0db8::1/64'' False None) = False
   \<and> fst (configure_l2tp_server_tunnel l2tp_server_router ''Caetite'' ''2804:385c:8700::11''
            ''2804:385c:8700::12'' ''2804:385c:8700::14/126'' ''2804:385c:8700::12'') = True"
  by code_simp

section \<open>The MTU probe\<close>

text \<open>
  The scan sends the candidate sizes in order, up to some point; the size it returns is
  the starting value or one of the sizes sent. The result of the probe is never an error:
  \<open>max_mtu\<close> is 0 or a candidate, \<open>recommended_mtu\<close> is 20 less, and \<open>tested_sizes\<close> holds
  the candidates up to \<open>max_mtu\<close>.
\<close>

lemma mtu_scan_max:
  "fst (mtu_scan c target sizes m) \<in> insert m (set sizes)"
proof (induction sizes arbitrary: c m)
  case Nil
  show ?case by simp
next
  case (Cons s sizes)
  show ?case
  proof (cases "mtu_reply_ok (fst (execute_command c (mtu_command target s)))")
    case True
    then have "fst (mtu_scan c target (s # sizes) m)
                 = fst (mtu_scan (snd (execute_command c (mtu_command target s))) target sizes s)"
      by (simp add: split_beta)
    then show ?thesis
      using Cons.IH [of "snd (execute_command c (mtu_command target s))" s] by auto
  next
    case False
    then show ?thesis by (simp add: split_beta)
  qed
qed

lemma mtu_scan_sent:
  "has_connection c \<Longrightarrow>
   \<exists>k. k \<le> length sizes
     \<and> sent (snd (mtu_scan c target sizes m)) = sent c @ map (mtu_command target) (take k sizes)
     \<and> fst (mtu_scan c target sizes m) \<in> insert m (set (take k sizes))"
proof (induction sizes arbitrary: c m)
  case Nil
  then show ?case by simp
next
  case (Cons s sizes)
  let ?c = "snd (execute_command c (mtu_command target s))"
  have up: "has_connection ?c" using Cons.prems by (simp add: execute_command_connected)
  have snt: "sent ?c = sent c @ [mtu_command target s]"
    using Cons.prems by (rule execute_command_sent)
  show ?case
  proof (cases "mtu_reply_ok (fst (execute_command c (mtu_command target s)))")
    case True
    then have step: "mtu_scan c target (s # sizes) m = mtu_scan ?c target sizes s"
      by (simp add: split_beta)
    from Cons.IH [OF up, of s] obtain k where k: "k \<le> length sizes"
      "sent (snd (mtu_scan ?c target sizes s)) = sent ?c @ map (mtu_command target) (take k sizes)"
      "fst (mtu_scan ?c target sizes s) \<in> insert s (set (take k sizes))"
      by blast
    have "Suc k \<le> length (s # sizes)
      \<and> sent (snd (mtu_scan c target (s # sizes) m))
          = sent c @ map (mtu_command target) (take (Suc k) (s # sizes))
      \<and> fst (mtu_scan c target (s # sizes) m) \<in> insert m (set (take (Suc k) (s # sizes)))"
      using k snt by (simp add: step del: mtu_scan.simps)
    then show ?thesis by blast
  next
    case False
    then have step: "mtu_scan c target (s # sizes) m = (m, ?c)"
      by (simp add: split_beta)
    have "Suc 0 \<le> length (s # sizes)
      \<and> sent (snd (mtu_scan c target (s # sizes) m))
          = sent c @ map (mtu_command target) (take (Suc 0) (s # sizes))
      \<and> fst (mtu_scan c target (s # sizes) m) \<in> insert m (set (take (Suc 0) (s # sizes)))"
      using snt by (simp add: step del: mtu_scan.simps)
    then show ?thesis by blast
  qed
qed

lemma test_mtu_ipv6_result:
  "\<exists>r. fst (test_mtu_ipv6 c target) = Inr r
       \<and> max_mtu r = fst (mtu_scan c target mtu_sizes 0)
       \<and> max_mtu r \<in> insert 0 (set mtu_sizes)
       \<and> recommended_mtu r = max_mtu r - 20
       \<and> tested_sizes r = filter (\<lambda>s. s \<le> max_mtu r) mtu_sizes"
proof -
  let ?m = "fst (mtu_scan c target mtu_sizes 0)"
  have m: "?m \<in> insert 0 (set mtu_sizes)" by (rule mtu_scan_max)
  then consider "?m = 0" | "?m = 1280" | "?m = 1300" | "?m = 1400" | "?m = 1500" | "?m = 1600"
    | "?m = 1700" | "?m = 1800" | "?m = 1900" | "?m = 2000"
    by (auto simp: mtu_sizes_def)
  then show ?thesis
    by cases (simp_all add: test_mtu_ipv6_def split_beta index_of_def mtu_sizes_def)
qed

text \<open>
  Claim C2. The probe sends the sizes of \<open>mtu_sizes\<close> in order and stops at the first one
  that is not answered; \<open>max_mtu\<close> is the last answered size and \<open>recommended_mtu\<close> is 20
  less. When 1280 and 1300 are answered and 1400 is not, three probes are sent and the
  result has \<open>max_mtu = 1300\<close> and \<open>recommended_mtu = 1280\<close>, but \<open>tested_sizes\<close> is
  \<open>[1280, 1300]\<close>: the size 1400, which was tested, is not in it.
\<close>

theorem test_mtu_ipv6_omits_failed_size:
  "fst (test_mtu_ipv6 mtu_1300_router sample_target)
     = Inr \<lparr>max_mtu = 1300, recommended_mtu = 1280, tested_sizes = [1280, 1300]\<rparr>
   \<and> sent (snd (test_mtu_ipv6 mtu_1300_router sample_target))
       = map (mtu_command sample_target) [1280, 1300, 1400]"
  by code_simp

section \<open>Adding an address that is there\<close>

text \<open>
  When the parsed listing holds an address with the same host part, the operation
  returns \<open>True\<close> and sends the listing query only.
\<close>

lemma add_existing_address_skipped:
  assumes "has_connection c"
    and "list_ex (same_host address) (fst (list_ipv6_addresses c (Some interface)))"
  shows "add_ipv6_address c interface address advertise comment
           = (True, snd (list_ipv6_addresses c (Some interface)))"
  using assms
  by (simp add: add_ipv6_address_def address_exists_def is_connected_def split_beta)

text \<open>
  Claim C3. When the interface has an address with the same host part, \<open>add_ipv6_address\<close>
  is to return \<open>True\<close> without sending an add command. \<open>_parse_ipv6_addresses\<close> appends an
  entry only when the next entry starts, so the last entry of a listing is never returned:
  on a router whose bridge has the single address \<open>2001:db8::1/64\<close>, the parser returns no
  address, the add of \<open>2001:db8::1/126\<close> is sent, and the operation returns \<open>False\<close>.
\<close>

theorem add_ipv6_address_misses_last_entry:
  "parse_ipv6_addresses sample_address_listing = Inr []
   \<and> sent (snd (add_ipv6_address router_with_address ''bridge'' ''2001:db8::1/126'' False None))
       = [''/ipv6 address print where interface=bridge'',
          ''/ipv6 address add address=2001:db8::1/126 interface=bridge advertise=no'']
   \<and> fst (add_ipv6_address router_with_address ''bridge'' ''2001:db8::1/126'' False None) = False"
  by code_simp

section \<open>Parsers that raise\<close>

text \<open>
  Without a header line the L2TP server parser returns no record. The ping parser raises
  whenever a reply has a per-packet time and no line of a summary.
\<close>

lemma no_header_no_records:
  "list_all (\<lambda>l. \<not> is_l2tp_header l) (split_on CHR ''\<newline>'' output) \<Longrightarrow>
   parse_l2tp_server_output output = []"
proof -
  have "list_all (\<lambda>l. \<not> is_l2tp_header l) ls \<Longrightarrow> after_header ls = None" for ls
    by (induction ls) auto
  then show "list_all (\<lambda>l. \<not> is_l2tp_header l) (split_on CHR ''\<newline>'' output) \<Longrightarrow>
   parse_l2tp_server_output output = []"
    by (simp add: parse_l2tp_server_output_def)
qed

lemma parse_ping_output_division:
  assumes "List.map_filter packet_time (split_on CHR ''\<newline>'' output) \<noteq> []"
    and "list_all (\<lambda>l. \<not> contains ''packets transmitted'' l \<and> \<not> contains ''round-trip'' l)
           (split_on CHR ''\<newline>'' output)"
  shows "parse_ping_output output target = Inl ZeroDivisionError"
proof -
  have keep: "list_all (\<lambda>l. \<not> contains ''packets transmitted'' l \<and> \<not> contains ''round-trip'' l) ls
     \<Longrightarrow> foldl read_summary_line r ls = r" for ls r
    by (induction ls arbitrary: r)
       (auto simp: read_summary_line_def read_stats_def read_round_trip_def)
  from assms show ?thesis
    by (auto simp: parse_ping_output_def Let_def keep use_packet_times_def split: list.splits)
qed

text \<open>
  Claim C4. A record parser is to return a collection for every text and never raise.
  \<open>_parse_ping_output\<close> raises \<open>ZeroDivisionError\<close> on a reply that has a per-packet line
  and no summary line, and \<open>_parse_ipv6_addresses\<close> raises \<open>IndexError\<close> on an entry line of
  two to four fields.
\<close>

theorem record_parsers_raise:
  "parse_ping_output one_packet_output sample_target = Inl ZeroDivisionError
   \<and> parse_ipv6_addresses ''0 G'' = Inl IndexError"
  by code_simp

text \<open>
  Claim C5. From the per-packet lines with the times 12, 14 and 10 ms and no summary line
  the result is to have the average 12.0, the minimum 10, the maximum 14 and success.
  \<open>_parse_ping_output\<close> collects the three times and then divides by \<open>packets_sent\<close>, which
  is 0: it raises \<open>ZeroDivisionError\<close>, and \<open>_ping_ipv6\<close> reports a failure.
\<close>

theorem parse_ping_output_packets_only:
  "List.map_filter packet_time (split_on CHR ''\<newline>'' packets_only_output) = [12, 14, 10]
   \<and> parse_ping_output packets_only_output sample_target = Inl ZeroDivisionError
   \<and> fst (ping_ipv6 ping_router sample_target 4) = PingFailure sample_target ''division by zero''
   \<and> report_success (fst (ping_ipv6 ping_router sample_target 4)) = False"
  by code_simp


section \<open>Removing what is absent\<close>

lemma list_ipv6_addresses_sent:
  "has_connection c \<Longrightarrow> sent (snd (list_ipv6_addresses c i)) = sent c @ [address_print_command i]"
  by (simp add: list_ipv6_addresses_def is_connected_def execute_command_def
           split: option.splits sum.splits)

lemma list_ipv6_routes_sent:
  "has_connection c \<Longrightarrow> sent (snd (list_ipv6_routes c d)) = sent c @ [route_print_command d]"
  by (simp add: list_ipv6_routes_def is_connected_def execute_command_def
           split: option.splits)

lemma find_none: "(\<forall>x \<in> set xs. \<not> P x) \<Longrightarrow> find P xs = None"
  by (simp add: find_None_iff)

lemma remove_absent_address:
  assumes "has_connection c"
    and "\<forall>e \<in> set (fst (list_ipv6_addresses c (Some interface))). \<not> same_host address e"
  shows "remove_ipv6_address c interface address
           = (True, snd (list_ipv6_addresses c (Some interface)))"
  using assms
  by (simp add: remove_ipv6_address_def find_address_id_def is_connected_def find_none
           split: prod.splits)

lemma remove_absent_route:
  assumes "has_connection c"
    and "\<forall>r \<in> set (fst (list_ipv6_routes c None)). \<not> same_route dst_address gateway r"
  shows "remove_ipv6_route c dst_address gateway = (True, snd (list_ipv6_routes c None))"
  using assms
  by (simp add: remove_ipv6_route_def find_route_id_def is_connected_def find_none
           split: prod.splits)

text \<open>
  Claim C10. On a connection that is up, when no listed address of the interface has the
  host part of the target address, \<open>remove_ipv6_address\<close> returns \<open>True\<close> and the listing
  query is the only command it sends; when no listed route has the target destination
  (and the gateway, if one is given), \<open>remove_ipv6_route\<close> returns \<open>True\<close> and the listing
  query is the only command it sends. No remove command is issued.
\<close>

theorem remove_absent_is_success:
  "(has_connection c
      \<and> (\<forall>e \<in> set (fst (list_ipv6_addresses c (Some interface))). \<not> same_host address e)
     \<longrightarrow> fst (remove_ipv6_address c interface address) = True
         \<and> sent (snd (remove_ipv6_address c interface address))
             = sent c @ [address_print_command (Some interface)])
   \<and> (has_connection c
      \<and> (\<forall>r \<in> set (fst (list_ipv6_routes c None)). \<not> same_route dst_address gateway r)
     \<longrightarrow> fst (remove_ipv6_route c dst_address gateway) = True
         \<and> sent (snd (remove_ipv6_route c dst_address gateway))
             = sent c @ [route_print_command None])"
  by (simp add: remove_absent_address remove_absent_route
                list_ipv6_addresses_sent list_ipv6_routes_sent)

lemma configured_router_listings:
  "map ae_address (fst (list_ipv6_addresses configured_router (Some ''bridge'')))
     = [''2001:db8::1/64'']
   \<and> list_all (\<lambda>e. \<not> same_host ''2001:db8::5/64'' e)
        (fst (list_ipv6_addresses configured_router (Some ''bridge'')))
   \<and> map rt_dst_address (fst (list_ipv6_routes configured_router None))
        = [''::/0'', ''2001:db8:14::/126'']
   \<and> list_all (\<lambda>r. \<not> same_route ''2001:db8:99::/64'' (Some ''2001:db8::12'') r)
        (fst (list_ipv6_routes configured_router None))
   \<and> address_print_command (Some ''bridge'') = ''/ipv6 address print where interface=bridge''
   \<and> route_print_command None = ''/ipv6 route print''"
  by code_simp

theorem remove_absent_is_success_witness:
  "has_connection configured_router
   \<and> list_all (\<lambda>e. \<not> same_host ''2001:db8::5/64'' e)
        (fst (list_ipv6_addresses configured_router (Some ''bridge'')))
   \<and> fst (remove_ipv6_address configured_router ''bridge'' ''2001:db8::5/64'') = True
   \<and> sent (snd (remove_ipv6_address configured_router ''bridge'' ''2001:db8::5/64''))
       = [''/ipv6 address print where interface=bridge'']
   \<and> list_all (\<lambda>r. \<not> same_route ''2001:db8:99::/64'' (Some ''2001:db8::12'') r)
        (fst (list_ipv6_routes configured_router None))
   \<and> fst (remove_ipv6_route configured_router ''2001:db8:99::/64'' (Some ''2001:db8::12'')) = True
   \<and> sent (snd (remove_ipv6_route configured_router ''2001:db8:99::/64'' (Some ''2001:db8::12'')))
       = [''/ipv6 route print'']"
proof -
  have up: "has_connection configured_router" and none: "sent configured_router = []"
    by (simp_all add: configured_router_def)
  note here = remove_absent_is_success
    [of configured_router "''bridge''" "''2001:db8::5/64''" "''2001:db8:99::/64''"
        "Some ''2001:db8::12''"]
  from here up none configured_router_listings show ?thesis
    by (simp add: list_all_iff)
qed

section \<open>Looking a tunnel up by its name\<close>

text \<open>
  The expression \<open><([^>]*l2tp[^>]*)>\<close> finds, at a \<open><\<close>, the text up to the next \<open>>\<close> when
  that text holds \<open>l2tp\<close> as written: the token of the code is the first bracketed text
  that holds \<open>l2tp\<close> in small letters.
\<close>

lemma set_rx_star:
  "set (rx_run (Star k) s g)
     = (\<lambda>n. (drop n s, g)) ` {n. n \<le> length (takeWhile (in_class k) s)}"
proof -
  have "set (rev [0 ..< Suc m]) = {n. n \<le> m}" for m :: nat
    by (auto simp del: upt_Suc)
  then show ?thesis by (simp del: upt_Suc)
qed

lemma set_rx_lit:
  "set (rx_run (Lit l) s g) = (if startswith s l then {(drop (length l) s, g)} else {})"
  by simp

lemma set_rx_cat:
  "set (rx_run (Cat a b) s g) = (\<Union>(s', g') \<in> set (rx_run a s g). set (rx_run b s' g'))"
  by auto

lemma in_class_not_closing: "in_class cls_not_closing = not_closing"
  by (auto simp: fun_eq_iff)

lemma startswith_gt: "startswith s ''>'' \<longleftrightarrow> (\<exists>r. s = CHR ''>'' # r)"
  by (cases s) auto

lemma le_run: "n \<le> length (takeWhile Q xs) \<longleftrightarrow> n \<le> length xs \<and> (\<forall>c \<in> set (take n xs). Q c)"
proof (induction xs arbitrary: n)
  case Nil
  show ?case by simp
next
  case (Cons x xs)
  show ?case by (cases n) (auto simp: Cons.IH)
qed

lemma startswith_append: "startswith (p @ r) p"
  by (induction p) auto

lemma contains_append: "contains p (a @ p @ b)"
proof (induction a)
  case Nil
  show ?case using startswith_append [of p b] by (cases "p @ b") auto
next
  case (Cons x a)
  then show ?case by simp
qed

lemma startswith_split: "startswith s p \<Longrightarrow> \<exists>r. s = p @ r"
  by (induction s p rule: startswith.induct) auto

lemma contains_split: "contains p t \<Longrightarrow> \<exists>a b. t = a @ p @ b"
proof (induction t)
  case Nil
  then have "p = []" by (cases p) auto
  then show ?case by simp
next
  case (Cons x t)
  show ?case
  proof (cases "startswith (x # t) p")
    case True
    then obtain r where "x # t = p @ r" using startswith_split by blast
    then have "x # t = [] @ p @ r" by simp
    then show ?thesis by blast
  next
    case False
    with Cons.prems have "contains p t" by simp
    then obtain a b where "t = a @ p @ b" using Cons.IH by blast
    then have "x # t = (x # a) @ p @ b" by simp
    then show ?thesis by blast
  qed
qed

lemma token_body_mem:
  "(s', g') \<in> set (rx_run (token_body p) xs g) \<longleftrightarrow>
     g' = g \<and> (\<exists>n m. n \<le> length (takeWhile not_closing xs) \<and> startswith (drop n xs) p
                 \<and> m \<le> length (takeWhile not_closing (drop (length p) (drop n xs)))
                 \<and> s' = drop m (drop (length p) (drop n xs)))"
  unfolding token_body_def set_rx_cat set_rx_star set_rx_lit in_class_not_closing
  by (auto split: if_splits)

lemma mem_cat:
  "(s', g') \<in> set (rx_run (Cat a b) s g) \<longleftrightarrow>
     (\<exists>s1 g1. (s1, g1) \<in> set (rx_run a s g) \<and> (s', g') \<in> set (rx_run b s1 g1))"
  by auto

lemma mem_lit:
  "(s', g') \<in> set (rx_run (Lit l) s g) \<longleftrightarrow> startswith s l \<and> s' = drop (length l) s \<and> g' = g"
  by auto

lemma mem_grp:
  "(s', g') \<in> set (rx_run (Grp r) s g) \<longleftrightarrow>
     (\<exists>g1. (s', g1) \<in> set (rx_run r s g) \<and> g' = g1 @ [take (length s - length s') s])"
  by auto

lemma token_mem:
  "(s', g') \<in> set (rx_run (Cat (Lit ''<'') (Cat (Grp (token_body p)) (Lit ''>''))) (x # xs) []) \<longleftrightarrow>
     (\<exists>s1 g1. (startswith (x # xs) ''<'' \<and> s1 = drop (length ''<'') (x # xs) \<and> g1 = []) \<and>
       (\<exists>s2 g2. (\<exists>g3. (g3 = g1 \<and> (\<exists>n m. n \<le> length (takeWhile not_closing s1) \<and> startswith (drop n s1) p
                 \<and> m \<le> length (takeWhile not_closing (drop (length p) (drop n s1)))
                 \<and> s2 = drop m (drop (length p) (drop n s1))))
              \<and> g2 = g3 @ [take (length s1 - length s2) s1])
         \<and> startswith s2 ''>'' \<and> s' = drop (length ''>'') s2 \<and> g' = g2))"
  by (simp only: mem_cat mem_lit mem_grp token_body_mem)

lemma takeWhile_stop: "\<forall>c \<in> set t. Q c \<Longrightarrow> \<not> Q y \<Longrightarrow> takeWhile Q (t @ y # r) = t"
  by (induction t) auto

lemma token_sound:
  assumes mem: "(s', g') \<in> set (rx_run (Cat (Lit ''<'') (Cat (Grp (token_body p)) (Lit ''>''))) (x # xs) [])"
    and p: "\<forall>c \<in> set p. not_closing c"
  shows "x = CHR ''<'' \<and> CHR ''>'' \<in> set xs \<and> contains p (takeWhile not_closing xs)
         \<and> g' = [takeWhile not_closing xs]"
proof -
  from mem obtain n m s2 where x: "x = CHR ''<''"
    and n: "n \<le> length (takeWhile not_closing xs)"
    and sw: "startswith (drop n xs) p"
    and m: "m \<le> length (takeWhile not_closing (drop (length p) (drop n xs)))"
    and s2: "s2 = drop m (drop (length p) (drop n xs))"
    and gt: "startswith s2 ''>''"
    and g': "g' = [take (length xs - length s2) xs]"
    unfolding token_mem by (auto split: if_splits)
  from sw obtain rest where rest: "drop n xs = p @ rest" using startswith_split by blast
  from gt obtain r where r: "s2 = CHR ''>'' # r" using startswith_gt by blast
  have s2': "drop m rest = CHR ''>'' # r" using s2 r rest by simp
  have m': "m \<le> length (takeWhile not_closing rest)" using m rest by simp
  define t where "t = take n xs @ p @ take m rest"
  have "xs = take n xs @ drop n xs" by simp
  also have "drop n xs = p @ take m rest @ drop m rest" using rest by simp
  finally have xs: "xs = t @ CHR ''>'' # r" using s2' by (simp add: t_def)
  have "\<forall>c \<in> set (take n xs). not_closing c" using n le_run [of n not_closing xs] by blast
  moreover have "\<forall>c \<in> set (take m rest). not_closing c" using m' le_run [of m not_closing rest] by blast
  ultimately have all: "\<forall>c \<in> set t. not_closing c" using p by (auto simp: t_def)
  have "takeWhile not_closing (t @ CHR ''>'' # r) = t"
    using all by (intro takeWhile_stop) simp_all
  then have run: "takeWhile not_closing xs = t" using xs by simp
  have e1: "length (t @ CHR ''>'' # r) - length (CHR ''>'' # r) = length t" by simp
  have "take (length (t @ CHR ''>'' # r) - length (CHR ''>'' # r)) (t @ CHR ''>'' # r) = t"
    by (simp only: e1) simp
  then have tk: "take (length xs - length s2) xs = t" using xs r by simp
  have inx: "CHR ''>'' \<in> set xs" using xs by (metis in_set_conv_decomp)
  have "contains p t" unfolding t_def by (rule contains_append)
  then show ?thesis using x g' run tk inx by simp
qed

lemma token_complete:
  assumes "CHR ''>'' \<in> set xs" and "contains p (takeWhile not_closing xs)"
  shows "rx_run (Cat (Lit ''<'') (Cat (Grp (token_body p)) (Lit ''>''))) (CHR ''<'' # xs) [] \<noteq> []"
proof -
  from assms(2) obtain a b where ab: "takeWhile not_closing xs = a @ p @ b" using contains_split by blast
  have "dropWhile not_closing xs \<noteq> []" using assms(1) by (simp add: dropWhile_eq_Nil_conv)
  then obtain y r where yr: "dropWhile not_closing xs = y # r" by (cases "dropWhile not_closing xs") auto
  then have "\<not> not_closing y" using hd_dropWhile [of not_closing xs] by auto
  then have y: "y = CHR ''>''" by simp
  have xs: "xs = a @ p @ b @ CHR ''>'' # r"
    using takeWhile_dropWhile_id [of not_closing xs] ab yr y by simp
  have allb: "\<forall>c \<in> set b. not_closing c" using set_takeWhileD [of _ not_closing xs] ab by auto
  have n: "length a \<le> length (takeWhile not_closing xs)" using ab by simp
  have d: "drop (length a) xs = p @ b @ CHR ''>'' # r" using xs by simp
  have sw: "startswith (drop (length a) xs) p" unfolding d by (rule startswith_append)
  have d2: "drop (length p) (drop (length a) xs) = b @ CHR ''>'' # r" using d by simp
  have "takeWhile not_closing (b @ CHR ''>'' # r) = b" using allb by (intro takeWhile_stop) simp_all
  then have m: "length b \<le> length (takeWhile not_closing (drop (length p) (drop (length a) xs)))"
    using d2 by simp
  have s2: "drop (length b) (drop (length p) (drop (length a) xs)) = CHR ''>'' # r"
    using d2 by simp
  have "(CHR ''>'' # r, []) \<in> set (rx_run (token_body p) xs [])"
    unfolding token_body_mem using n sw m s2 [symmetric] by blast
  then have g: "(CHR ''>'' # r, [] @ [take (length xs - length (CHR ''>'' # r)) xs])
                 \<in> set (rx_run (Grp (token_body p)) xs [])"
    unfolding mem_grp by blast
  have e: "(r, [] @ [take (length xs - length (CHR ''>'' # r)) xs])
             \<in> set (rx_run (Lit ''>'') (CHR ''>'' # r)
                      ([] @ [take (length xs - length (CHR ''>'' # r)) xs]))"
    by simp
  have l: "(xs, []) \<in> set (rx_run (Lit ''<'') (CHR ''<'' # xs) [])" by simp
  have "(r, [] @ [take (length xs - length (CHR ''>'' # r)) xs])
        \<in> set (rx_run (Cat (Lit ''<'') (Cat (Grp (token_body p)) (Lit ''>''))) (CHR ''<'' # xs) [])"
    unfolding mem_cat using l g e by blast
  then show ?thesis by (metis empty_iff list.set(1))
qed


lemma rx_tunnel_token_body:
  "rx_tunnel_token = Cat (Lit ''<'') (Cat (Grp (token_body ''l2tp'')) (Lit ''>''))"
  by (simp add: rx_tunnel_token_def token_body_def)

lemma re_match_token:
  "re_match rx_tunnel_token (x # xs)
     = (if x = CHR ''<'' \<and> CHR ''>'' \<in> set xs \<and> contains ''l2tp'' (takeWhile not_closing xs)
        then Some [takeWhile not_closing xs] else None)"
proof (cases "rx_run rx_tunnel_token (x # xs) []")
  case Nil
  then have "\<not> (x = CHR ''<'' \<and> CHR ''>'' \<in> set xs \<and> contains ''l2tp'' (takeWhile not_closing xs))"
    using token_complete [of xs "''l2tp''"] unfolding rx_tunnel_token_body by blast
  then show ?thesis using Nil by (simp add: re_match_def)
next
  case (Cons a rest)
  obtain s' g' where a: "a = (s', g')" by (cases a)
  then have "(s', g') \<in> set (rx_run rx_tunnel_token (x # xs) [])" using Cons by simp
  then have "x = CHR ''<'' \<and> CHR ''>'' \<in> set xs \<and> contains ''l2tp'' (takeWhile not_closing xs)
         \<and> g' = [takeWhile not_closing xs]"
    unfolding rx_tunnel_token_body by (rule token_sound) simp
  then show ?thesis using Cons a by (simp add: re_match_def)
qed

lemma re_match_token_Nil: "re_match rx_tunnel_token [] = None"
  by (simp add: re_match_def rx_tunnel_token_def)

lemma re_search_token:
  "re_search rx_tunnel_token line
     = map_option (\<lambda>t. [t]) (find (contains ''l2tp'') (bracket_tokens line))"
  by (induction line) (simp_all add: re_match_token re_match_token_Nil)

lemma tunnel_token_find:
  "tunnel_token line = find (contains ''l2tp'') (bracket_tokens line)"
  by (cases "find (contains ''l2tp'') (bracket_tokens line)")
     (simp_all add: tunnel_token_def re_search_token)

lemma contains_lower: "contains p t \<Longrightarrow> contains (lower p) (lower t)"
proof -
  assume "contains p t"
  then obtain a b where "t = a @ p @ b" using contains_split by blast
  then have "lower t = lower a @ lower p @ lower b" by (simp add: lower_def)
  then show ?thesis by (simp only: contains_append)
qed

lemma lower_l2tp: "lower ''l2tp'' = ''l2tp''"
  by code_simp

lemma tunnel_token_small:
  assumes "written_small line"
  shows "tunnel_token line = interface_token line"
proof -
  have "contains ''l2tp'' t = contains ''l2tp'' (lower t)" if "t \<in> set (bracket_tokens line)" for t
  proof -
    from assms that have "contains ''l2tp'' t \<or> \<not> contains ''l2tp'' (lower t)"
      by (simp add: written_small_def list_all_iff)
    moreover have "contains ''l2tp'' t \<Longrightarrow> contains ''l2tp'' (lower t)"
      using contains_lower [of "''l2tp''" t] by (simp only: lower_l2tp)
    ultimately show ?thesis by blast
  qed
  then have "find (contains ''l2tp'') (bracket_tokens line)
               = find (\<lambda>t. contains ''l2tp'' (lower t)) (bracket_tokens line)"
    by (intro find_cong) simp_all
  then show ?thesis by (simp only: tunnel_token_find interface_token_def)
qed

lemma find_tunnel_line_lookup:
  "list_all written_small ls \<Longrightarrow> find_tunnel_in_lines tunnel_name ls = line_lookup tunnel_name ls"
proof (induction ls)
  case Nil
  show ?case by (simp add: line_lookup_def)
next
  case (Cons l ls)
  then have small: "tunnel_token l = interface_token l" and rest: "list_all written_small ls"
    by (simp_all add: tunnel_token_small)
  have IH: "find_tunnel_in_lines tunnel_name ls = line_lookup tunnel_name ls"
    using Cons.IH rest by blast
  show ?case
  proof (cases "names_tunnel tunnel_name l \<and> interface_token l \<noteq> None")
    case True
    then obtain t where t: "interface_token l = Some t" by blast
    have "candidate_line l \<and> holds_name tunnel_name l"
      using True by (simp add: candidate_line_def holds_name_def names_tunnel_def)
    then have "line_lookup tunnel_name (l # ls) = Some t"
      by (simp add: line_lookup_def t)
    moreover have "find_tunnel_in_lines tunnel_name (l # ls) = Some t"
      using True by (simp add: small t)
    ultimately show ?thesis by simp
  next
    case False
    then have "\<not> (candidate_line l \<and> holds_name tunnel_name l)"
      by (auto simp: candidate_line_def holds_name_def names_tunnel_def)
    then have "line_lookup tunnel_name (l # ls) = line_lookup tunnel_name ls"
      by (auto simp: line_lookup_def)
    moreover have "find_tunnel_in_lines tunnel_name (l # ls) = find_tunnel_in_lines tunnel_name ls"
      using False by (auto simp: small)
    ultimately show ?thesis using IH by simp
  qed
qed

lemma find_tunnel_lower:
  "lower other = lower tunnel_name \<Longrightarrow>
   find_tunnel_in_lines other ls = find_tunnel_in_lines tunnel_name ls"
  by (induction ls) (auto simp: names_tunnel_def split: option.splits)

lemma find_by_name_lines:
  "has_connection c \<Longrightarrow>
   fst (find_l2tp_tunnel_by_name c tunnel_name) = find_tunnel_in_lines tunnel_name (listing_lines c)"
  by (simp add: find_l2tp_tunnel_by_name_def execute_command_def listing_lines_def names_tunnel_def
                lower_def split: option.splits)

lemma capital_l2tp_token_is_missed:
  "find_tunnel_in_lines ''Caetite'' [capital_token_line] = None
   \<and> interface_token capital_token_line = Some ''L2TP-CAETITE''
   \<and> line_lookup ''Caetite'' [capital_token_line] = Some ''L2TP-CAETITE''"
  by code_simp

text \<open>
  Claim C7, amended. The lookup of a tunnel by its name matches the desired name, case
  ignored, against the whole text of each candidate line, not against the interface token
  by itself: the first candidate line whose text holds the name wins and its bracketed
  interface name is returned, and nothing is returned when there is no such line. Names
  that differ in case only give the same result. This is stated for a connection that is
  up and a listing whose bracketed L2TP interface names write \<open>l2tp\<close> in small letters.
\<close>

theorem tunnel_lookup_by_line_text:
  assumes "has_connection c" and "list_all written_small (listing_lines c)"
  shows "fst (find_l2tp_tunnel_by_name c tunnel_name) = line_lookup tunnel_name (listing_lines c)
         \<and> (lower other = lower tunnel_name
              \<longrightarrow> fst (find_l2tp_tunnel_by_name c other)
                    = fst (find_l2tp_tunnel_by_name c tunnel_name))"
proof
  show "fst (find_l2tp_tunnel_by_name c tunnel_name) = line_lookup tunnel_name (listing_lines c)"
    using assms by (simp only: find_by_name_lines find_tunnel_line_lookup)
next
  show "lower other = lower tunnel_name
          \<longrightarrow> fst (find_l2tp_tunnel_by_name c other) = fst (find_l2tp_tunnel_by_name c tunnel_name)"
  proof
    assume "lower other = lower tunnel_name"
    then have "find_tunnel_in_lines other (listing_lines c)
                 = find_tunnel_in_lines tunnel_name (listing_lines c)"
      by (rule find_tunnel_lower)
    then show "fst (find_l2tp_tunnel_by_name c other) = fst (find_l2tp_tunnel_by_name c tunnel_name)"
      using assms(1) by (simp only: find_by_name_lines)
  qed
qed

lemma mixed_case_router_lookup:
  "has_connection mixed_case_router
   \<and> list_all written_small (listing_lines mixed_case_router)
   \<and> lower ''CAETITE'' = lower ''Caetite''
   \<and> line_lookup ''Caetite'' (listing_lines mixed_case_router) = Some ''l2tp-CAETITE''
   \<and> line_lookup ''site1'' (listing_lines mixed_case_router) = Some ''l2tp-site12''"
  by code_simp

theorem tunnel_lookup_by_line_text_witness:
  "has_connection mixed_case_router
   \<and> list_all written_small (listing_lines mixed_case_router)
   \<and> lower ''CAETITE'' = lower ''Caetite''
   \<and> fst (find_l2tp_tunnel_by_name mixed_case_router ''Caetite'') = Some ''l2tp-CAETITE''
   \<and> fst (find_l2tp_tunnel_by_name mixed_case_router ''CAETITE'') = Some ''l2tp-CAETITE''
   \<and> fst (find_l2tp_tunnel_by_name mixed_case_router ''site1'') = Some ''l2tp-site12''"
proof -
  have up: "has_connection mixed_case_router"
    and small: "list_all written_small (listing_lines mixed_case_router)"
    and same: "lower ''CAETITE'' = lower ''Caetite''"
    and one: "line_lookup ''Caetite'' (listing_lines mixed_case_router) = Some ''l2tp-CAETITE''"
    and two: "line_lookup ''site1'' (listing_lines mixed_case_router) = Some ''l2tp-site12''"
    using mixed_case_router_lookup by blast+
  note a = tunnel_lookup_by_line_text [OF up small, of "''Caetite''" "''CAETITE''"]
  note b = tunnel_lookup_by_line_text [OF up small, of "''site1''" "''site1''"]
  have r1: "fst (find_l2tp_tunnel_by_name mixed_case_router ''Caetite'') = Some ''l2tp-CAETITE''"
    using a one by (simp only:)
  have r2: "fst (find_l2tp_tunnel_by_name mixed_case_router ''CAETITE'') = Some ''l2tp-CAETITE''"
    using a same r1 by (simp only:)
  have r3: "fst (find_l2tp_tunnel_by_name mixed_case_router ''site1'') = Some ''l2tp-site12''"
    using b two by (simp only:)
  from up small same r1 r2 r3 show ?thesis by (simp only: simp_thms)
qed

text \<open>
  The claim as it was stated fails: the name that stands in the user column only, and
  not in the interface token, finds the line all the same.
\<close>

theorem tunnel_lookup_counterexample:
  "fst (find_l2tp_tunnel_by_name user_column_router ''caetite'') = Some ''l2tp-site9''
   \<and> claimed_lookup ''caetite'' (listing_lines user_column_router) = None
   \<and> holds_name ''caetite'' ''l2tp-site9'' = False"
  by code_simp

section \<open>Parsing a ping summary\<close>

lemma split_on_nonempty: "split_on c s \<noteq> []"
  by (induction s) (auto split: list.splits)

lemma split_on_append: "split_on c (a @ c # b) = split_on c a @ split_on c b"
proof (induction a)
  case Nil
  show ?case by simp
next
  case (Cons x a)
  then show ?case
    using split_on_nonempty [of c a]
    by (cases "split_on c a") auto
qed

lemma lines_before:
  "\<exists>ls. split_on c (concat (map (\<lambda>l. l @ [c]) before) @ rest) = ls @ split_on c rest"
proof (induction before)
  case Nil
  show ?case by simp
next
  case (Cons l before)
  then obtain ls where "split_on c (concat (map (\<lambda>l. l @ [c]) before) @ rest) = ls @ split_on c rest"
    by blast
  then have "split_on c (concat (map (\<lambda>l. l @ [c]) (l # before)) @ rest)
              = (split_on c l @ ls) @ split_on c rest"
    using split_on_append [of c l "concat (map (\<lambda>l. l @ [c]) before) @ rest"] by simp
  then show ?case by blast
qed

lemma summary_facts:
  "contains ''packets transmitted'' ping_summary_line"
  "re_search rx_stats ping_summary_line = Some [''4'', ''4'', ''0'']"
  "\<not> contains ''round-trip'' ping_summary_line"
  "\<not> contains ''packets transmitted'' ping_round_trip_line"
  "contains ''round-trip'' ping_round_trip_line"
  "contains ''min/avg/max'' ping_round_trip_line"
  "re_search rx_round_trip ping_round_trip_line = Some [''15'', ''15'', ''16'']"
  "int_of_digits ''4'' = 4" "int_of_digits ''0'' = 0"
  "float_of ''15'' = 15" "float_of ''16'' = 16"
  "split_on CHR ''\<newline>'' ping_summary = [ping_summary_line, ping_round_trip_line]"
  by code_simp+

lemma read_summary:
  "read_summary_line r ping_summary_line
     = r\<lparr>pr_packets_sent := 4, pr_packets_received := 4, pr_packet_loss_percent := 0,
         pr_success := True\<rparr>"
  by (simp add: read_summary_line_def read_stats_def read_round_trip_def summary_facts)

lemma read_round_trip_line:
  "read_summary_line r ping_round_trip_line
     = r\<lparr>pr_min_time_ms := 15, pr_avg_time_ms := 15, pr_max_time_ms := 16\<rparr>"
  by (simp add: read_summary_line_def read_stats_def read_round_trip_def summary_facts)

lemma use_packet_times_with_avg:
  "pr_avg_time_ms r \<noteq> 0 \<Longrightarrow> use_packet_times ts r = Inr r"
  by (simp add: use_packet_times_def split: list.splits)

text \<open>
  Claim C6. A ping reply that ends with the summary line
  \<open>4 packets transmitted, 4 received, 0% packet loss\<close> and the line
  \<open>round-trip min/avg/max = 15/15/16 ms\<close> is parsed, whatever lines come before, into
  a result with 4 packets sent, 4 received, 0 percent loss, success, and the times
  15, 15 and 16.
\<close>

theorem ping_summary_parsed:
  "\<exists>r. parse_ping_output (ping_output_with_summary before) target = Inr r
       \<and> pr_packets_sent r = 4 \<and> pr_packets_received r = 4 \<and> pr_packet_loss_percent r = 0
       \<and> pr_success r = True
       \<and> pr_min_time_ms r = 15 \<and> pr_avg_time_ms r = 15 \<and> pr_max_time_ms r = 16"
proof -
  obtain ls where ls: "split_on CHR ''\<newline>'' (ping_output_with_summary before)
                        = ls @ [ping_summary_line, ping_round_trip_line]"
    using lines_before [of "CHR ''\<newline>''" before ping_summary]
    by (auto simp: ping_output_with_summary_def summary_facts)
  show ?thesis
    by (simp add: parse_ping_output_def Let_def ls read_summary read_round_trip_line
                  use_packet_times_with_avg)
qed

section \<open>Loading the tunnel mapping\<close>

lemma length_six: "length xs = 6 \<Longrightarrow> \<exists>a b c d e f. xs = [a, b, c, d, e, f]"
proof -
  assume "length xs = 6"
  then have "length xs = Suc (Suc (Suc (Suc (Suc (Suc 0)))))" by simp
  then show ?thesis by (auto simp: length_Suc_conv)
qed

lemma load_line_skipped:
  "is_skipped_line raw \<Longrightarrow> load_tunnel_line st (n, raw) = st"
  by (simp add: load_tunnel_line_def)

lemma load_line_malformed:
  "malformed_line raw \<Longrightarrow> load_tunnel_line st (n, raw) = st\<lparr>warnings := warnings st @ [n]\<rparr>"
  by (simp add: load_tunnel_line_def malformed_line_def)

lemma load_line_well_formed:
  assumes "well_formed_line raw"
  shows "load_tunnel_line st (n, raw)
           = st\<lparr>mappings := AList.update (line_tunnel_name raw) (line_config raw) (mappings st)\<rparr>"
proof -
  from assms have len: "length (fields_of raw) = 6" and ns: "\<not> is_skipped_line raw"
    by (simp_all add: well_formed_line_def)
  from len obtain a b c d e f where fs: "fields_of raw = [a, b, c, d, e, f]"
    using length_six by blast
  show ?thesis
    using ns by (simp add: load_tunnel_line_def fs line_tunnel_name_def line_config_def)
qed

lemma line_kinds: "is_skipped_line raw \<or> well_formed_line raw \<or> malformed_line raw"
  by (auto simp: well_formed_line_def malformed_line_def)

lemma well_formed_not_malformed: "well_formed_line raw \<Longrightarrow> \<not> malformed_line raw"
  by (simp add: well_formed_line_def malformed_line_def)

lemma malformed_not_well_formed: "malformed_line raw \<Longrightarrow> \<not> well_formed_line raw"
  by (simp add: well_formed_line_def malformed_line_def)

lemma skipped_is_neither:
  "is_skipped_line raw \<Longrightarrow> \<not> well_formed_line raw \<and> \<not> malformed_line raw"
  by (simp add: well_formed_line_def malformed_line_def)

lemma load_fold:
  "distinct (map fst (mappings st)) \<Longrightarrow>
   distinct (map fst (mappings (foldl load_tunnel_line st zs)))
   \<and> fst ` set (mappings (foldl load_tunnel_line st zs))
       = fst ` set (mappings st) \<union> line_tunnel_name ` set (filter well_formed_line (map snd zs))
   \<and> warnings (foldl load_tunnel_line st zs)
       = warnings st @ map fst (filter (\<lambda>z. malformed_line (snd z)) zs)"
proof (induction zs arbitrary: st)
  case Nil
  then show ?case by simp
next
  case (Cons z zs)
  obtain n raw where z: "z = (n, raw)" by (cases z)
  let ?st = "load_tunnel_line st (n, raw)"
  consider (skip) "is_skipped_line raw" | (wf) "well_formed_line raw" | (bad) "malformed_line raw"
    using line_kinds by blast
  then show ?case
  proof cases
    case skip
    then have step: "?st = st" by (rule load_line_skipped)
    from Cons.IH [OF Cons.prems] skipped_is_neither [OF skip] show ?thesis
      by (simp add: z step)
  next
    case wf
    then obtain cfg where step: "?st
        = st\<lparr>mappings := AList.update (line_tunnel_name raw) cfg (mappings st)\<rparr>"
      using load_line_well_formed by blast
    have d: "distinct (map fst (mappings ?st))"
      using Cons.prems by (simp add: step distinct_update)
    have k: "fst ` set (mappings ?st) = insert (line_tunnel_name raw) (fst ` set (mappings st))"
      by (simp add: step dom_update)
    have w: "warnings ?st = warnings st" by (simp add: step)
    from Cons.IH [OF d] well_formed_not_malformed [OF wf] wf show ?thesis
      by (simp add: z k w)
  next
    case bad
    have step: "?st = st\<lparr>warnings := warnings st @ [n]\<rparr>"
      using bad by (rule load_line_malformed)
    have d: "distinct (map fst (mappings ?st))"
      using Cons.prems by (simp add: step)
    have k: "fst ` set (mappings ?st) = fst ` set (mappings st)" by (simp add: step)
    have w: "warnings ?st = warnings st @ [n]" by (simp add: step)
    from Cons.IH [OF d] malformed_not_well_formed [OF bad] bad show ?thesis
      by (simp add: z k w)
  qed
qed

lemma load_fold_values:
  "map_of (mappings (foldl load_tunnel_line st zs))
     = map_of (mappings st) ++ map_of (rev (map line_entry (filter well_formed_line (map snd zs))))"
proof (induction zs arbitrary: st)
  case Nil
  show ?case by simp
next
  case (Cons z zs)
  obtain n raw where z: "z = (n, raw)" by (cases z)
  let ?st = "load_tunnel_line st (n, raw)"
  let ?tail = "map_of (rev (map line_entry (filter well_formed_line (map snd zs))))"
  have IH: "map_of (mappings (foldl load_tunnel_line ?st zs)) = map_of (mappings ?st) ++ ?tail"
    by (rule Cons.IH)
  consider (skip) "is_skipped_line raw" | (wf) "well_formed_line raw" | (bad) "malformed_line raw"
    using line_kinds by blast
  then show ?case
  proof cases
    case skip
    then have "?st = st" by (rule load_line_skipped)
    then show ?thesis using IH skipped_is_neither [OF skip] by (simp add: z)
  next
    case wf
    have m: "map_of (mappings ?st)
               = (map_of (mappings st))(line_tunnel_name raw \<mapsto> line_config raw)"
      by (simp add: load_line_well_formed [OF wf] update_conv')
    have "map_of (rev (map line_entry (filter well_formed_line (map snd (z # zs)))))
            = map_of [line_entry raw] ++ ?tail"
      using wf by (simp add: z del: map_of.simps)
    moreover have "(map_of (mappings st))(line_tunnel_name raw \<mapsto> line_config raw) ++ ?tail
            = map_of (mappings st) ++ (map_of [line_entry raw] ++ ?tail)"
      by (simp add: line_entry_def fun_eq_iff map_add_def split: option.splits)
    ultimately show ?thesis using IH m by (simp add: z del: map_of.simps)
  next
    case bad
    have "mappings ?st = mappings st" by (simp add: load_line_malformed [OF bad])
    then show ?thesis using IH malformed_not_well_formed [OF bad] by (simp add: z)
  qed
qed

lemma map_snd_numbered: "map snd (numbered ls) = ls"
  unfolding numbered_def by (rule map_snd_zip) (simp del: upt_Suc)


text \<open>
  Claim C8, amended. \<open>load_tunnel_mapping\<close> reports with a warning, and skips, every line
  that is neither blank nor a comment and has not exactly six fields. The mappings are
  keyed by the tunnel name: there is one mapping for each tunnel name of a well-formed
  line, and it holds the stripped fields of the last well-formed line of that name, a
  later line replacing an earlier one. So the count of the mappings is at most the number
  of well-formed lines, and equal to it when no two well-formed lines have the same name.
\<close>

theorem load_tunnel_mapping_counts:
  "warnings (load_tunnel_mapping file_lines)
     = map fst (filter (\<lambda>z. malformed_line (snd z)) (numbered file_lines))
   \<and> distinct (map fst (mappings (load_tunnel_mapping file_lines)))
   \<and> set (map fst (mappings (load_tunnel_mapping file_lines)))
       = set (map line_tunnel_name (filter well_formed_line file_lines))
   \<and> map_of (mappings (load_tunnel_mapping file_lines))
       = map_of (rev (map line_entry (filter well_formed_line file_lines)))
   \<and> length (mappings (load_tunnel_mapping file_lines))
       \<le> length (filter well_formed_line file_lines)
   \<and> (distinct (map line_tunnel_name (filter well_formed_line file_lines))
        \<longrightarrow> length (mappings (load_tunnel_mapping file_lines))
              = length (filter well_formed_line file_lines))"
proof -
  let ?m = "mappings (load_tunnel_mapping file_lines)"
  let ?wf = "filter well_formed_line file_lines"
  have f: "distinct (map fst ?m)
     \<and> fst ` set ?m = line_tunnel_name ` set ?wf
     \<and> warnings (load_tunnel_mapping file_lines)
         = map fst (filter (\<lambda>z. malformed_line (snd z)) (numbered file_lines))"
    using load_fold [of "\<lparr>mappings = [], warnings = []\<rparr>" "numbered file_lines"]
    by (simp add: load_tunnel_mapping_def map_snd_numbered)
  have vals: "map_of ?m = map_of (rev (map line_entry ?wf))"
    using load_fold_values [of "\<lparr>mappings = [], warnings = []\<rparr>" "numbered file_lines"]
    by (simp add: load_tunnel_mapping_def map_snd_numbered)
  from f have "card (set (map fst ?m)) = length (map fst ?m)"
    using distinct_card by blast
  then have len: "length ?m = card (line_tunnel_name ` set ?wf)"
    using f by simp
  have "card (set (map line_tunnel_name ?wf)) \<le> length (map line_tunnel_name ?wf)"
    by (rule card_length)
  then have le: "card (line_tunnel_name ` set ?wf) \<le> length ?wf" by simp
  have eq: "card (line_tunnel_name ` set ?wf) = length ?wf"
    if "distinct (map line_tunnel_name ?wf)"
    using distinct_card [OF that] by simp
  from f vals len le eq show ?thesis by simp
qed

lemma sample_tunnel_file_lines:
  "distinct (map line_tunnel_name (filter well_formed_line sample_tunnel_file))
   \<and> map line_tunnel_name (filter well_formed_line sample_tunnel_file)
       = [''caetite'', ''guanambi'']
   \<and> map fst (filter (\<lambda>z. malformed_line (snd z)) (numbered sample_tunnel_file)) = [4]
   \<and> map_of (rev (map line_entry (filter well_formed_line sample_tunnel_file))) ''guanambi''
       = Some \<lparr>tc_client_hostname = ''host-b'', tc_server_ip = ''2001:db8::21'',
               tc_client_ip = ''2001:db8::22'', tc_route_network = ''2001:db8::24/126'',
               tc_gateway = ''2001:db8::22''\<rparr>"
  by code_simp

theorem load_tunnel_mapping_counts_witness:
  "distinct (map line_tunnel_name (filter well_formed_line sample_tunnel_file))
   \<and> length (mappings (load_tunnel_mapping sample_tunnel_file)) = 2
   \<and> set (map fst (mappings (load_tunnel_mapping sample_tunnel_file)))
       = {''caetite'', ''guanambi''}
   \<and> map_of (mappings (load_tunnel_mapping sample_tunnel_file)) ''guanambi''
       = Some \<lparr>tc_client_hostname = ''host-b'', tc_server_ip = ''2001:db8::21'',
               tc_client_ip = ''2001:db8::22'', tc_route_network = ''2001:db8::24/126'',
               tc_gateway = ''2001:db8::22''\<rparr>
   \<and> warnings (load_tunnel_mapping sample_tunnel_file) = [4]"
proof -
  have names: "map line_tunnel_name (filter well_formed_line sample_tunnel_file)
                 = [''caetite'', ''guanambi'']"
    and dist: "distinct (map line_tunnel_name (filter well_formed_line sample_tunnel_file))"
    and warn: "map fst (filter (\<lambda>z. malformed_line (snd z)) (numbered sample_tunnel_file)) = [4]"
    and val: "map_of (rev (map line_entry (filter well_formed_line sample_tunnel_file))) ''guanambi''
       = Some \<lparr>tc_client_hostname = ''host-b'', tc_server_ip = ''2001:db8::21'',
               tc_client_ip = ''2001:db8::22'', tc_route_network = ''2001:db8::24/126'',
               tc_gateway = ''2001:db8::22''\<rparr>"
    using sample_tunnel_file_lines by blast+
  have "length (map line_tunnel_name (filter well_formed_line sample_tunnel_file)) = 2"
    by (simp only: names) simp
  then have two: "length (filter well_formed_line sample_tunnel_file) = 2"
    by (simp only: length_map)
  note facts = load_tunnel_mapping_counts [of sample_tunnel_file]
  have w: "warnings (load_tunnel_mapping sample_tunnel_file) = [4]"
    using facts warn by (simp only:)
  have k: "set (map fst (mappings (load_tunnel_mapping sample_tunnel_file)))
             = {''caetite'', ''guanambi''}"
    using facts names by (simp only: list.set)
  have l: "length (mappings (load_tunnel_mapping sample_tunnel_file)) = 2"
    using facts dist two by (simp only:)
  have v: "map_of (mappings (load_tunnel_mapping sample_tunnel_file)) ''guanambi''
       = Some \<lparr>tc_client_hostname = ''host-b'', tc_server_ip = ''2001:db8::21'',
               tc_client_ip = ''2001:db8::22'', tc_route_network = ''2001:db8::24/126'',
               tc_gateway = ''2001:db8::22''\<rparr>"
    using facts val by (simp only:)
  from dist l k v w show ?thesis by (simp only: simp_thms)
qed

lemma repeated_name_keeps_last_line:
  "map_of (mappings (load_tunnel_mapping repeated_name_file)) ''caetite''
     = Some \<lparr>tc_client_hostname = ''host-b'', tc_server_ip = ''2001:db8::21'',
             tc_client_ip = ''2001:db8::22'', tc_route_network = ''2001:db8::24/126'',
             tc_gateway = ''2001:db8::22''\<rparr>"
  by code_simp

text \<open>
  The claim as it was stated fails: two well-formed lines that name the same tunnel give
  one mapping.
\<close>

theorem repeated_tunnel_name_counterexample:
  "\<not> (length (filter well_formed_line repeated_name_file)
        \<le> length (mappings (load_tunnel_mapping repeated_name_file)))"
  by code_simp

end
